theory Spec2Isabelle
  imports Complex_Main "HOL-Library.Multiset"
begin

section \<open>Vector search in bustub: distance kernel, IVFFlat, HNSW, optimizer rule\<close>

text \<open>
  A shallow embedding of the vector-search code of the repository: the distance kernel
  \<^verbatim>\<open>ComputeDistance\<close> (vector_expression.h), the IVFFlat index (ivfflat_index.cpp), the
  HNSW index (hnsw_index.cpp) and the optimizer rule \<^verbatim>\<open>OptimizeAsVectorIndexScan\<close>
  (vector_index_scan.cpp).

  Naming: a C++ member \<^verbatim>\<open>name_\<close> is the record field \<open>name_m\<close> (an identifier of the
  logic cannot end in an underscore); a member function \<^verbatim>\<open>Class::Name\<close> is \<open>Class_Name\<close>.
\<close>

subsection \<open>Errors\<close>

text \<open>
  The C++ code has two ways of not returning a value: a failed assertion
  (\<^verbatim>\<open>BUSTUB_ASSERT\<close>, \<^verbatim>\<open>assert\<close>), and undefined behaviour (reading a
  \<^verbatim>\<open>std::vector\<close> out of range with \<^verbatim>\<open>operator[]\<close>, \<^verbatim>\<open>top()\<close> of an empty
  priority queue, converting a double that does not fit to \<^verbatim>\<open>int\<close>, dereferencing a null
  pointer). Both are values of the model, so that every operation is a total function into
  \<open>error + 'a\<close>.
\<close>

datatype error =
    AssertionFailed   \<comment> \<open>\<^verbatim>\<open>BUSTUB_ASSERT\<close> / \<^verbatim>\<open>assert\<close> failed\<close>
  | OutOfRange        \<comment> \<open>undefined behaviour: container read outside its bounds\<close>
  | BadConversion     \<comment> \<open>undefined behaviour: double to int conversion out of range\<close>
  | NullDeref         \<comment> \<open>undefined behaviour: null pointer dereferenced\<close>
  | ExceptionThrown   \<comment> \<open>a C++ exception (\<^verbatim>\<open>throw\<close>)\<close>

fun ebind :: "error + 'a \<Rightarrow> ('a \<Rightarrow> error + 'b) \<Rightarrow> error + 'b" where
  "ebind (Inl e) f = Inl e"
| "ebind (Inr x) f = f x"

definition nth_checked :: "'a list \<Rightarrow> nat \<Rightarrow> error + 'a" where
  \<comment> \<open>\<^verbatim>\<open>v[i]\<close> on a \<^verbatim>\<open>std::vector\<close>: defined only for \<open>i < size\<close>\<close>
  "nth_checked xs i = (if i < length xs then Inr (xs ! i) else Inl OutOfRange)"

fun emap :: "('a \<Rightarrow> error + 'b) \<Rightarrow> 'a list \<Rightarrow> error + 'b list" where
  \<comment> \<open>a loop that applies \<open>f\<close> to the elements in order and stops at the first failure\<close>
  "emap f [] = Inr []"
| "emap f (x # xs) = ebind (f x) (\<lambda>y. ebind (emap f xs) (\<lambda>ys. Inr (y # ys)))"

lemma emap_cong [fundef_cong]:
  "xs = ys \<Longrightarrow> (\<And>x. x \<in> set ys \<Longrightarrow> f x = g x) \<Longrightarrow> emap f xs = emap g ys"
  by (induction ys arbitrary: xs) auto

subsection \<open>Doubles\<close>

text \<open>
  A \<^verbatim>\<open>double\<close> is an IEEE 754 binary64 number: a real number \<open>n * 2^e\<close> with
  \<open>\<bar>n\<bar> < 2^53\<close> and \<open>-1074 \<le> e \<le> 971\<close> (\<open>is_double\<close>), one of the two infinities, or
  not-a-number. An arithmetic operation on finite operands gives the exact result rounded
  to the nearest double, a tie going to the even significand (\<open>round_double\<close>): the
  spacing of the doubles around \<open>x\<close> is \<open>2^(\<lfloor>log\<^sub>2 \<bar>x\<bar>\<rfloor> - 52)\<close> and never less than
  \<open>2^-1074\<close> (gradual underflow), and a rounded value of magnitude \<open>2^1024\<close> or more is
  the infinity of that sign (overflow). Every operation of the code rounds on its own (no
  fused multiply-add, no extended precision).

  The two zeros are one value, \<open>Fin 0\<close>: they compare equal and differ only as divisors,
  and a zero divisor counts as \<open>+0.0\<close> (the zero divisors of this code are a converted
  \<^verbatim>\<open>size_t\<close> and a square root, neither of which is \<open>-0.0\<close>). The type has a value
  \<open>Fin x\<close> for every real \<open>x\<close>; the values of the program are those with \<open>is_double x\<close>,
  which the operations preserve.
\<close>

datatype double = Fin real | PInf | NInf | NaN

definition is_double :: "real \<Rightarrow> bool" where
  "is_double x \<longleftrightarrow>
     (\<exists>n e. x = of_int n * 2 powr of_int e \<and> \<bar>n\<bar> < 2 ^ 53 \<and> - 1074 \<le> e \<and> e \<le> 971)"

definition inf_of_sign :: "bool \<Rightarrow> double" where
  "inf_of_sign positive = (if positive then PInf else NInf)"

definition ulp_exponent :: "real \<Rightarrow> int" where
  \<comment> \<open>the exponent of the spacing of the doubles around \<open>x\<close>\<close>
  "ulp_exponent x = max (\<lfloor>log 2 \<bar>x\<bar>\<rfloor> - 52) (- 1074)"

definition round_half_even :: "real \<Rightarrow> int" where
  \<comment> \<open>the nearest integer, the even one of the two when \<open>y\<close> is half-way\<close>
  "round_half_even y =
     (if y - of_int \<lfloor>y\<rfloor> < 1 / 2 then \<lfloor>y\<rfloor>
      else if 1 / 2 < y - of_int \<lfloor>y\<rfloor> then \<lfloor>y\<rfloor> + 1
      else if even \<lfloor>y\<rfloor> then \<lfloor>y\<rfloor> else \<lfloor>y\<rfloor> + 1)"

definition round_double :: "real \<Rightarrow> double" where
  \<comment> \<open>round to nearest, ties to even, with overflow to infinity\<close>
  "round_double x =
     (if x = 0 then Fin 0
      else
        let ulp = 2 powr of_int (ulp_exponent x);
            r = of_int (round_half_even (x / ulp)) * ulp
        in if 2 ^ 1024 \<le> \<bar>r\<bar> then inf_of_sign (0 < x) else Fin r)"

fun dneg :: "double \<Rightarrow> double" where
  "dneg (Fin a) = Fin (- a)"
| "dneg PInf = NInf"
| "dneg NInf = PInf"
| "dneg NaN = NaN"

fun dadd :: "double \<Rightarrow> double \<Rightarrow> double" where
  "dadd NaN y = NaN"
| "dadd x NaN = NaN"
| "dadd (Fin a) (Fin b) = round_double (a + b)"
| "dadd PInf NInf = NaN"
| "dadd NInf PInf = NaN"
| "dadd PInf y = PInf"
| "dadd x PInf = PInf"
| "dadd NInf y = NInf"
| "dadd x NInf = NInf"

definition dsub :: "double \<Rightarrow> double \<Rightarrow> double" where
  "dsub x y = dadd x (dneg y)"

fun dmul :: "double \<Rightarrow> double \<Rightarrow> double" where
  "dmul NaN y = NaN"
| "dmul x NaN = NaN"
| "dmul (Fin a) (Fin b) = round_double (a * b)"
| "dmul (Fin a) PInf = (if a = 0 then NaN else inf_of_sign (0 < a))"
| "dmul (Fin a) NInf = (if a = 0 then NaN else inf_of_sign (a < 0))"
| "dmul PInf (Fin b) = (if b = 0 then NaN else inf_of_sign (0 < b))"
| "dmul NInf (Fin b) = (if b = 0 then NaN else inf_of_sign (b < 0))"
| "dmul PInf PInf = PInf"
| "dmul NInf NInf = PInf"
| "dmul PInf NInf = NInf"
| "dmul NInf PInf = NInf"

fun ddiv :: "double \<Rightarrow> double \<Rightarrow> double" where
  "ddiv NaN y = NaN"
| "ddiv x NaN = NaN"
| "ddiv (Fin a) (Fin b) =
     (if b \<noteq> 0 then round_double (a / b)
      else if a = 0 then NaN
      else inf_of_sign (0 < a))"
| "ddiv (Fin a) PInf = Fin 0"
| "ddiv (Fin a) NInf = Fin 0"
| "ddiv PInf (Fin b) = inf_of_sign (0 \<le> b)"
| "ddiv NInf (Fin b) = inf_of_sign (b < 0)"
| "ddiv PInf y = NaN"
| "ddiv NInf y = NaN"

fun dsqrt :: "double \<Rightarrow> double" where
  "dsqrt (Fin a) = (if 0 \<le> a then round_double (sqrt a) else NaN)"
| "dsqrt PInf = PInf"
| "dsqrt NInf = NaN"
| "dsqrt NaN = NaN"

definition dpow2 :: "double \<Rightarrow> double" where
  \<comment> \<open>\<^verbatim>\<open>pow(x, 2)\<close>, taken as the square rounded once, like \<^verbatim>\<open>x * x\<close>\<close>
  "dpow2 x = dmul x x"

fun dless :: "double \<Rightarrow> double \<Rightarrow> bool" where
  \<comment> \<open>\<^verbatim>\<open>x < y\<close>: false as soon as one side is not a number\<close>
  "dless NaN y = False"
| "dless x NaN = False"
| "dless (Fin a) (Fin b) = (a < b)"
| "dless (Fin a) PInf = True"
| "dless (Fin a) NInf = False"
| "dless PInf y = False"
| "dless NInf NInf = False"
| "dless NInf y = True"

definition dmin :: "double \<Rightarrow> double \<Rightarrow> double" where
  \<comment> \<open>\<^verbatim>\<open>std::min(a, b)\<close>, which is \<^verbatim>\<open>(b < a) ? b : a\<close>\<close>
  "dmin a b = (if dless b a then b else a)"

definition double_of_int :: "int \<Rightarrow> double" where
  \<comment> \<open>the conversion of an \<^verbatim>\<open>int\<close> (32 bits): every \<^verbatim>\<open>int\<close> is a double\<close>
  "double_of_int i = Fin (of_int i)"

definition double_of_nat :: "nat \<Rightarrow> double" where
  \<comment> \<open>the conversion of a \<^verbatim>\<open>size_t\<close>, rounded above \<open>2^53\<close>\<close>
  "double_of_nat n = round_double (of_nat n)"

definition truncate_real :: "real \<Rightarrow> int" where
  \<comment> \<open>rounding toward zero\<close>
  "truncate_real x = (if 0 \<le> x then \<lfloor>x\<rfloor> else \<lceil>x\<rceil>)"

definition INT_MIN :: int where "INT_MIN = - (2 ^ 31)"
definition INT_MAX :: int where "INT_MAX = 2 ^ 31 - 1"

fun double_to_int :: "double \<Rightarrow> error + int" where
  \<comment> \<open>the implicit conversion of \<^verbatim>\<open>int x = <double>\<close>: truncation, undefined when the
      truncated value is not an \<^verbatim>\<open>int\<close>\<close>
  "double_to_int (Fin a) =
     (if INT_MIN \<le> truncate_real a \<and> truncate_real a \<le> INT_MAX
      then Inr (truncate_real a) else Inl BadConversion)"
| "double_to_int x = Inl BadConversion"

definition SIZE_MAX :: nat where "SIZE_MAX = 2 ^ 64 - 1"

definition size_t_of_int :: "int \<Rightarrow> nat" where
  \<comment> \<open>the conversion of an \<^verbatim>\<open>int\<close> to the 64-bit \<^verbatim>\<open>size_t\<close>: modulo \<open>2^64\<close>\<close>
  "size_t_of_int i = nat (i mod 2 ^ 64)"

subsection \<open>The distance kernel (vector_expression.h)\<close>

type_synonym Vector = "double list"

datatype VectorExpressionType = L2Dist | InnerProduct | CosineSimilarity

text \<open>
  The three loops of \<^verbatim>\<open>ComputeDistance\<close> run over the indices of \<open>left\<close>; they are
  reached only after the assertion that both sizes are equal, so they are folds over the
  zipped vectors.
\<close>

definition l2_step :: "double \<Rightarrow> double \<times> double \<Rightarrow> double" where
  "l2_step distance p = dadd distance (dpow2 (dsub (fst p) (snd p)))"

definition ip_step :: "double \<Rightarrow> double \<times> double \<Rightarrow> double" where
  "ip_step distance p = dadd distance (dmul (fst p) (snd p))"

definition cos_step :: "double \<times> double \<times> double \<Rightarrow> double \<times> double \<Rightarrow> double \<times> double \<times> double" where
  "cos_step acc p =
     (case acc of (distance, left_distance, right_distance) \<Rightarrow>
        (dadd distance (dmul (fst p) (snd p)),
         dadd left_distance (dpow2 (fst p)),
         dadd right_distance (dpow2 (snd p))))"

definition ComputeDistance :: "Vector \<Rightarrow> Vector \<Rightarrow> VectorExpressionType \<Rightarrow> error + double" where
  "ComputeDistance left right dist_fn =
     (if length left \<noteq> length right then Inl AssertionFailed
      else case dist_fn of
        L2Dist \<Rightarrow> Inr (dsqrt (foldl l2_step (Fin 0) (zip left right)))
      | InnerProduct \<Rightarrow> Inr (dmul (Fin (- 1)) (foldl ip_step (Fin 0) (zip left right)))
      | CosineSimilarity \<Rightarrow>
          (case foldl cos_step (Fin 0, Fin 0, Fin 0) (zip left right) of
             (distance, left_distance, right_distance) \<Rightarrow>
               Inr (dsub (Fin 1) (ddiv distance (dsqrt (dmul left_distance right_distance))))))"

definition dsum :: "double list \<Rightarrow> double" where
  \<comment> \<open>a sum accumulated from \<open>0.0\<close>, term after term, each addition rounded\<close>
  "dsum xs = foldl dadd (Fin 0) xs"

definition zero_or_nan :: "double \<Rightarrow> bool" where
  "zero_or_nan x \<longleftrightarrow> x = Fin 0 \<or> x = NaN"

subsection \<open>The IVFFlat index (ivfflat_index.cpp)\<close>

type_synonym RID = nat

text \<open>
  \<^verbatim>\<open>VectorIndex\<close> is the base class of both indexes; its constructor stores the metric the
  index is created with in the member \<^verbatim>\<open>distance_fn_\<close>.
\<close>

record VectorIndex =
  distance_fn_m :: VectorExpressionType

record IVFFlatIndex = VectorIndex +
  lists_m :: nat
  probe_lists_m :: nat
  centroids_m :: "Vector list"
  centroids_buckets_m :: "(Vector \<times> RID) list list"

fun find_option :: "string \<Rightarrow> (string \<times> int) list \<Rightarrow> int option \<Rightarrow> int option" where
  \<comment> \<open>the constructors' loop over the options: the last binding of a name wins\<close>
  "find_option name [] acc = acc"
| "find_option name ((k, v) # rest) acc =
     find_option name rest (if k = name then Some v else acc)"

definition IVFFlatIndex_new :: "VectorExpressionType \<Rightarrow> (string \<times> int) list \<Rightarrow> error + IVFFlatIndex" where
  \<comment> \<open>the constructor\<close>
  "IVFFlatIndex_new distance_fn options =
     (case (find_option ''lists'' options None, find_option ''probe_lists'' options None) of
        (Some lists_v, Some probe_lists_v) \<Rightarrow>
          Inr \<lparr> distance_fn_m = distance_fn,
                lists_m = size_t_of_int lists_v, probe_lists_m = size_t_of_int probe_lists_v,
                centroids_m = [], centroids_buckets_m = [] \<rparr>
      | _ \<Rightarrow> Inl ExceptionThrown)"

definition IVFFlatIndex_RandomSample :: "(Vector \<times> RID) list \<Rightarrow> nat \<Rightarrow> nat list \<Rightarrow> error + Vector list" where
  \<comment> \<open>\<open>indices\<close> is the index vector after \<^verbatim>\<open>std::shuffle\<close>: a permutation of
      \<open>[0..<length data]\<close> that the random generator chooses\<close>
  "IVFFlatIndex_RandomSample data num_samples indices =
     (if length data < num_samples then Inl ExceptionThrown
      else emap (\<lambda>i. ebind (nth_checked indices i) (\<lambda>j.
                     ebind (nth_checked data j) (\<lambda>entry. Inr (fst entry))))
             [0..<num_samples])"

definition VectorAdd :: "Vector \<Rightarrow> Vector \<Rightarrow> error + Vector" where
  \<comment> \<open>\<^verbatim>\<open>a[i] += b[i]\<close> for every index of \<open>a\<close>; reads \<open>b\<close> out of range when it is shorter\<close>
  "VectorAdd a b = (if length b < length a then Inl OutOfRange else Inr (map2 dadd a b))"

definition VectorScalarDiv :: "Vector \<Rightarrow> double \<Rightarrow> Vector" where
  "VectorScalarDiv a x = map (\<lambda>y. ddiv y x) a"

text \<open>
  \<^verbatim>\<open>FindCentroid\<close>: \<^verbatim>\<open>min_index\<close> and \<^verbatim>\<open>min_distance\<close> are \<^verbatim>\<open>int\<close>s, starting at
  \<open>-1\<close> and \<open>0\<close>. The test is \<^verbatim>\<open>min_distance < ComputeDistance(...)\<close>; the assignment
  \<^verbatim>\<open>min_distance = ComputeDistance(...)\<close> converts the double to \<^verbatim>\<open>int\<close>. The result
  \<^verbatim>\<open>min_index\<close> is returned as a \<^verbatim>\<open>size_t\<close>.
\<close>

fun FindCentroid_loop ::
  "Vector \<Rightarrow> Vector list \<Rightarrow> VectorExpressionType \<Rightarrow> nat \<Rightarrow> int \<Rightarrow> int \<Rightarrow> error + int" where
  "FindCentroid_loop vec [] dist_fn i min_index min_distance = Inr min_index"
| "FindCentroid_loop vec (c # cs) dist_fn i min_index min_distance =
     ebind (ComputeDistance vec c dist_fn) (\<lambda>d.
       if dless (double_of_int min_distance) d
       then ebind (double_to_int d) (\<lambda>md. FindCentroid_loop vec cs dist_fn (Suc i) (int i) md)
       else FindCentroid_loop vec cs dist_fn (Suc i) min_index min_distance)"

definition FindCentroid :: "Vector \<Rightarrow> Vector list \<Rightarrow> VectorExpressionType \<Rightarrow> error + nat" where
  "FindCentroid vec centroids dist_fn =
     ebind (FindCentroid_loop vec centroids dist_fn 0 (- 1) 0) (\<lambda>min_index.
       Inr (size_t_of_int min_index))"

text \<open>
  In \<^verbatim>\<open>FindCentroids\<close> the vector \<^verbatim>\<open>count\<close> of the code is \<open>count_v\<close>.
\<close>

fun FindCentroids_assign ::
  "(Vector \<times> RID) list \<Rightarrow> Vector list \<Rightarrow> nat list \<Rightarrow> VectorExpressionType
     \<Rightarrow> error + (Vector list \<times> nat list)" where
  \<comment> \<open>the first loop of \<^verbatim>\<open>FindCentroids\<close>; \<open>res\<close> is read and updated in place\<close>
  "FindCentroids_assign [] res count_v dist_fn = Inr (res, count_v)"
| "FindCentroids_assign (it # rest) res count_v dist_fn =
     ebind (FindCentroid (fst it) res dist_fn) (\<lambda>index.
       if index < length res
       then ebind (VectorAdd (res ! index) (fst it)) (\<lambda>added.
              FindCentroids_assign rest (res[index := added])
                (count_v[index := count_v ! index + 1]) dist_fn)
       else Inl OutOfRange)"

definition FindCentroids_divide :: "Vector list \<Rightarrow> nat list \<Rightarrow> Vector list" where
  \<comment> \<open>the second loop of \<^verbatim>\<open>FindCentroids\<close>: \<^verbatim>\<open>if (i == 0) continue;\<close> then the division\<close>
  "FindCentroids_divide res count_v =
     map (\<lambda>i. if i = 0 then res ! i else VectorScalarDiv (res ! i) (double_of_nat (count_v ! i)))
       [0..<length res]"

definition FindCentroids ::
  "(Vector \<times> RID) list \<Rightarrow> Vector list \<Rightarrow> VectorExpressionType \<Rightarrow> error + Vector list" where
  "FindCentroids data centroids dist_fn =
     ebind (FindCentroids_assign data centroids (replicate (length centroids) 0) dist_fn)
       (\<lambda>(res, count_v). Inr (FindCentroids_divide res count_v))"

fun kmeans_iterations :: "nat \<Rightarrow> (Vector \<times> RID) list \<Rightarrow> Vector list \<Rightarrow> error + Vector list" where
  \<comment> \<open>the loop \<^verbatim>\<open>for (iter = 0; iter < max_iterations; ++iter)\<close> of \<^verbatim>\<open>BuildIndex\<close>\<close>
  "kmeans_iterations 0 initial_data centroids = Inr centroids"
| "kmeans_iterations (Suc n) initial_data centroids =
     ebind (FindCentroids initial_data centroids L2Dist) (kmeans_iterations n initial_data)"

fun assign_buckets ::
  "(Vector \<times> RID) list \<Rightarrow> Vector list \<Rightarrow> (Vector \<times> RID) list list
     \<Rightarrow> error + (Vector \<times> RID) list list" where
  \<comment> \<open>the last loop of \<^verbatim>\<open>BuildIndex\<close>\<close>
  "assign_buckets [] centroids buckets = Inr buckets"
| "assign_buckets (pair # rest) centroids buckets =
     ebind (FindCentroid (fst pair) centroids L2Dist) (\<lambda>nearest_centroid_idx.
       if nearest_centroid_idx < length buckets
       then assign_buckets rest centroids
              (buckets[nearest_centroid_idx := buckets ! nearest_centroid_idx @ [pair]])
       else Inl OutOfRange)"

definition resize :: "nat \<Rightarrow> 'a list list \<Rightarrow> 'a list list" where
  \<comment> \<open>\<^verbatim>\<open>std::vector::resize\<close> on a vector of vectors\<close>
  "resize n xs = take n xs @ replicate (n - length xs) []"

definition max_iterations :: nat where "max_iterations = 500"

definition IVFFlatIndex_BuildIndex ::
  "IVFFlatIndex \<Rightarrow> (Vector \<times> RID) list \<Rightarrow> nat list \<Rightarrow> error + IVFFlatIndex" where
  "IVFFlatIndex_BuildIndex s initial_data indices =
     (if length initial_data < lists_m s then Inr s
      else
        ebind (IVFFlatIndex_RandomSample initial_data (lists_m s) indices) (\<lambda>sampled.
        ebind (kmeans_iterations max_iterations initial_data sampled) (\<lambda>centroids.
        ebind (assign_buckets initial_data centroids (resize (lists_m s) (centroids_buckets_m s)))
          (\<lambda>buckets. Inr (s\<lparr> centroids_m := centroids, centroids_buckets_m := buckets \<rparr>)))))"

definition IVFFlatIndex_InsertVectorEntry :: "IVFFlatIndex \<Rightarrow> Vector \<Rightarrow> RID \<Rightarrow> error + IVFFlatIndex" where
  "IVFFlatIndex_InsertVectorEntry s key rid =
     ebind (FindCentroid key (centroids_m s) L2Dist) (\<lambda>nearest_centroid_idx.
       if nearest_centroid_idx < length (centroids_buckets_m s)
       then Inr (s\<lparr> centroids_buckets_m :=
              (centroids_buckets_m s)[nearest_centroid_idx :=
                 centroids_buckets_m s ! nearest_centroid_idx @ [(key, rid)]] \<rparr>)
       else Inl OutOfRange)"

text \<open>
  \<^verbatim>\<open>std::sort\<close> is modelled by a stable insertion sort with the comparator of the call:
  each element goes in front of the first one that is greater. The order \<^verbatim>\<open>std::sort\<close>
  gives to elements that the comparator does not separate is unspecified; here they keep
  their order.
\<close>

fun insert_by :: "('a \<Rightarrow> 'a \<Rightarrow> bool) \<Rightarrow> 'a \<Rightarrow> 'a list \<Rightarrow> 'a list" where
  "insert_by lt x [] = [x]"
| "insert_by lt x (y # ys) = (if lt x y then x # y # ys else y # insert_by lt x ys)"

definition std_sort :: "('a \<Rightarrow> 'a \<Rightarrow> bool) \<Rightarrow> 'a list \<Rightarrow> 'a list" where
  "std_sort lt xs = foldl (\<lambda>sorted x. insert_by lt x sorted) [] xs"

definition pair_less :: "double \<times> nat \<Rightarrow> double \<times> nat \<Rightarrow> bool" where
  \<comment> \<open>\<^verbatim>\<open>operator<\<close> of \<^verbatim>\<open>std::pair<double, size_t>\<close>\<close>
  "pair_less a b = (dless (fst a) (fst b) \<or> (\<not> dless (fst b) (fst a) \<and> snd a < snd b))"

definition first_less :: "double \<times> 'a \<Rightarrow> double \<times> 'a \<Rightarrow> bool" where
  \<comment> \<open>the lambda of \<^verbatim>\<open>ScanVectorKey\<close>: \<^verbatim>\<open>a.first < b.first\<close>\<close>
  "first_less a b = dless (fst a) (fst b)"

fun centroid_distances :: "Vector \<Rightarrow> Vector list \<Rightarrow> nat \<Rightarrow> error + (double \<times> nat) list" where
  \<comment> \<open>the first loop of \<^verbatim>\<open>FindNearestCentroids\<close>, from index \<open>i\<close> on\<close>
  "centroid_distances base_vector [] i = Inr []"
| "centroid_distances base_vector (c # cs) i =
     ebind (ComputeDistance base_vector c L2Dist) (\<lambda>dist.
     ebind (centroid_distances base_vector cs (Suc i)) (\<lambda>distances.
       Inr ((dist, i) # distances)))"

text \<open>
  \<^verbatim>\<open>FindNearestCentroids\<close> and \<^verbatim>\<open>ScanVectorKey\<close> are member functions that are not
  declared \<^verbatim>\<open>const\<close>: the model passes the index through them and returns it with the
  result.
\<close>

definition IVFFlatIndex_FindNearestCentroids ::
  "IVFFlatIndex \<Rightarrow> Vector \<Rightarrow> nat \<Rightarrow> error + (nat list \<times> IVFFlatIndex)" where
  "IVFFlatIndex_FindNearestCentroids s base_vector num_centroids =
     ebind (centroid_distances base_vector (centroids_m s) 0) (\<lambda>distances.
       Inr (map snd (take num_centroids (std_sort pair_less distances)), s))"

fun bucket_results :: "Vector \<Rightarrow> (Vector \<times> RID) list \<Rightarrow> error + (double \<times> RID) list" where
  \<comment> \<open>the inner loop of \<^verbatim>\<open>ScanVectorKey\<close> over one bucket\<close>
  "bucket_results base_vector [] = Inr []"
| "bucket_results base_vector (entry # rest) =
     ebind (ComputeDistance base_vector (fst entry) L2Dist) (\<lambda>distance.
     ebind (bucket_results base_vector rest) (\<lambda>results.
       Inr ((distance, snd entry) # results)))"

fun probe_results ::
  "Vector \<Rightarrow> (Vector \<times> RID) list list \<Rightarrow> nat list \<Rightarrow> error + (double \<times> RID) list" where
  \<comment> \<open>the outer loop of \<^verbatim>\<open>ScanVectorKey\<close> over the probed centroids\<close>
  "probe_results base_vector buckets [] = Inr []"
| "probe_results base_vector buckets (centroid_idx # rest) =
     ebind (nth_checked buckets centroid_idx) (\<lambda>bucket.
     ebind (bucket_results base_vector bucket) (\<lambda>here.
     ebind (probe_results base_vector buckets rest) (\<lambda>later.
       Inr (here @ later))))"

definition local_results :: "IVFFlatIndex \<Rightarrow> Vector \<Rightarrow> error + ((double \<times> RID) list \<times> IVFFlatIndex)" where
  \<comment> \<open>steps 1 to 3 of \<^verbatim>\<open>ScanVectorKey\<close>: the sorted vector \<^verbatim>\<open>local_results\<close>\<close>
  "local_results s base_vector =
     ebind (IVFFlatIndex_FindNearestCentroids s base_vector (probe_lists_m s)) (\<lambda>(nearest_centroids, s1).
     ebind (probe_results base_vector (centroids_buckets_m s1) nearest_centroids) (\<lambda>found.
       Inr (std_sort first_less found, s1)))"

definition IVFFlatIndex_ScanVectorKey :: "IVFFlatIndex \<Rightarrow> Vector \<Rightarrow> nat \<Rightarrow> error + (RID list \<times> IVFFlatIndex)" where
  "IVFFlatIndex_ScanVectorKey s base_vector limit =
     ebind (local_results s base_vector) (\<lambda>(sorted_results, s1).
       Inr (map snd (take (min limit (length sorted_results)) sorted_results), s1))"


subsection \<open>The HNSW index (hnsw_index.cpp)\<close>

text \<open>
  \<^verbatim>\<open>std::priority_queue\<close> is modelled by a list with the top first, ordered by the
  comparator of the queue: a pushed element goes in front of the first element that is
  below it. Which of several elements that the comparator does not separate is nearer the
  top is left to the heap algorithm by the standard library; here it is the one pushed
  first.
\<close>

definition pq_push :: "('a \<Rightarrow> 'a \<Rightarrow> bool) \<Rightarrow> 'a \<Rightarrow> 'a list \<Rightarrow> 'a list" where
  "pq_push cmp x heap = insert_by (\<lambda>a b. cmp b a) x heap"

definition pq_top :: "'a list \<Rightarrow> error + 'a" where
  \<comment> \<open>\<^verbatim>\<open>top()\<close>: undefined on an empty queue\<close>
  "pq_top heap = (case heap of [] \<Rightarrow> Inl OutOfRange | x # rest \<Rightarrow> Inr x)"

definition pq_pop :: "'a list \<Rightarrow> 'a list" where
  "pq_pop heap = tl heap"

definition push_bounded :: "('a \<Rightarrow> 'a \<Rightarrow> bool) \<Rightarrow> nat \<Rightarrow> 'a \<Rightarrow> 'a list \<Rightarrow> 'a list" where
  \<comment> \<open>the pattern \<^verbatim>\<open>heap.push(x); if (heap.size() > bound) heap.pop();\<close>\<close>
  "push_bounded cmp bound x heap =
     (let pushed = pq_push cmp x heap in if bound < length pushed then pq_pop pushed else pushed)"

definition CompareByDistance :: "double \<times> nat \<Rightarrow> double \<times> nat \<Rightarrow> bool" where
  "CompareByDistance a b = dless (fst a) (fst b)"

definition SelectNeighbors_cmp :: "double \<times> nat \<Rightarrow> double \<times> nat \<Rightarrow> bool" where
  \<comment> \<open>the lambda \<^verbatim>\<open>cmp\<close> of \<^verbatim>\<open>SelectNeighbors\<close>: \<^verbatim>\<open>dist_left > dist_right\<close>\<close>
  "SelectNeighbors_cmp left right = dless (fst right) (fst left)"

text \<open>
  The heap of \<^verbatim>\<open>SelectNeighbors\<close> holds vertex ids and its comparator computes the two
  distances at every comparison. The model stores each id with its distance, computed when
  the id is pushed: a vertex id outside the vertex table, or a vertex of another dimension
  than \<open>vec\<close>, is an error at the push, where the C++ code reaches it at the first
  comparison.
\<close>

fun SelectNeighbors_loop ::
  "Vector \<Rightarrow> Vector list \<Rightarrow> nat \<Rightarrow> VectorExpressionType \<Rightarrow> nat list \<Rightarrow> (double \<times> nat) list
     \<Rightarrow> error + (double \<times> nat) list" where
  "SelectNeighbors_loop vec vertices m dist_fn [] min_heap = Inr min_heap"
| "SelectNeighbors_loop vec vertices m dist_fn (vertex_id # rest) min_heap =
     ebind (nth_checked vertices vertex_id) (\<lambda>v.
     ebind (ComputeDistance vec v dist_fn) (\<lambda>dist.
       SelectNeighbors_loop vec vertices m dist_fn rest
         (push_bounded SelectNeighbors_cmp m (dist, vertex_id) min_heap)))"

definition SelectNeighbors ::
  "Vector \<Rightarrow> nat list \<Rightarrow> Vector list \<Rightarrow> nat \<Rightarrow> VectorExpressionType \<Rightarrow> error + nat list" where
  "SelectNeighbors vec vertex_ids vertices m dist_fn =
     ebind (SelectNeighbors_loop vec vertices m dist_fn vertex_ids []) (\<lambda>min_heap.
       Inr (map snd min_heap))"

text \<open>
  Modelled from the spec: the declaration of \<^verbatim>\<open>struct NSW\<close> (hnsw_index.h) is not among the
  sources. The spec has "each layer being an undirected graph over a subset of the vertex
  ids, with adjacency stored as a mapping \<open>vertex_id \<rightarrow> [vertex_id]\<close>"; the members are
  the ones hnsw_index.cpp uses. \<^verbatim>\<open>edges_\<close> is an association list; a key that is absent
  and a key bound to the empty list are the same adjacency (the code reads \<^verbatim>\<open>edges_\<close>
  only through \<^verbatim>\<open>operator[]\<close>, which makes an absent key an empty list). The member
  \<^verbatim>\<open>vertices_\<close> is a reference to the vertex table of the index: the functions of a
  layer take the table as their first argument.
\<close>

record NSW =
  dist_fn_m :: VectorExpressionType
  nsw_m_max_m :: nat
  edges_m :: "(nat \<times> nat list) list"
  in_vertices_m :: "nat list"

definition edges_at :: "NSW \<Rightarrow> nat \<Rightarrow> nat list" where
  \<comment> \<open>\<^verbatim>\<open>edges_[v]\<close>\<close>
  "edges_at g v = (case map_of (edges_m g) v of None \<Rightarrow> [] | Some ns \<Rightarrow> ns)"

definition edges_update :: "NSW \<Rightarrow> nat \<Rightarrow> nat list \<Rightarrow> NSW" where
  \<comment> \<open>\<^verbatim>\<open>edges_[v] = ns\<close>\<close>
  "edges_update g v ns = g\<lparr> edges_m := (v, ns) # filter (\<lambda>e. fst e \<noteq> v) (edges_m g) \<rparr>"

definition NSW_DefaultEntryPoint :: "NSW \<Rightarrow> error + nat" where
  \<comment> \<open>Modelled from the spec: the body of \<^verbatim>\<open>NSW::DefaultEntryPoint\<close> (hnsw_index.h) is not
      among the sources. The spec has "a single entry point per layer is any vertex in that
      layer (conventionally the first inserted one)": the first element of
      \<^verbatim>\<open>in_vertices_\<close>, which does not exist in a layer without vertices.\<close>
  "NSW_DefaultEntryPoint g = nth_checked (in_vertices_m g) 0"

record search_state =
  candidate_queue :: "nat list"
  result_set :: "(double \<times> nat) list"
  visited :: "nat set"
  max_result_dist :: double
  min_candidate_dist :: double

definition DBL_MIN :: double where
  \<comment> \<open>\<^verbatim>\<open>std::numeric_limits<double>::min()\<close>, the least positive normal double\<close>
  "DBL_MIN = Fin (1 / 2 ^ 1022)"

definition DBL_MAX :: double where
  \<comment> \<open>\<^verbatim>\<open>std::numeric_limits<double>::max()\<close>\<close>
  "DBL_MAX = Fin ((2 - 1 / 2 ^ 52) * 2 ^ 1023)"

definition update_max_result_dist :: "nat \<Rightarrow> search_state \<Rightarrow> error + search_state" where
  \<comment> \<open>\<^verbatim>\<open>if (result_set.size() == limit) max_result_dist = result_set.top().first;\<close>\<close>
  "update_max_result_dist limit st =
     (if length (result_set st) = limit
      then ebind (pq_top (result_set st)) (\<lambda>top. Inr (st\<lparr> max_result_dist := fst top \<rparr>))
      else Inr st)"

fun SearchLayer_init ::
  "Vector list \<Rightarrow> NSW \<Rightarrow> Vector \<Rightarrow> nat \<Rightarrow> nat list \<Rightarrow> search_state \<Rightarrow> error + search_state" where
  \<comment> \<open>the loop over the entry points\<close>
  "SearchLayer_init vertices g base_vector limit [] st = Inr st"
| "SearchLayer_init vertices g base_vector limit (entry_point # rest) st =
     ebind (nth_checked vertices entry_point) (\<lambda>v.
     ebind (ComputeDistance base_vector v (dist_fn_m g)) (\<lambda>dist.
     ebind (update_max_result_dist limit
              (st\<lparr> candidate_queue := candidate_queue st @ [entry_point],
                   result_set := pq_push CompareByDistance (dist, entry_point) (result_set st),
                   visited := insert entry_point (visited st) \<rparr>)) (\<lambda>st1.
       SearchLayer_init vertices g base_vector limit rest
         (st1\<lparr> min_candidate_dist := dmin (min_candidate_dist st1) dist \<rparr>))))"

fun SearchLayer_neighbors ::
  "Vector list \<Rightarrow> NSW \<Rightarrow> Vector \<Rightarrow> nat \<Rightarrow> nat list \<Rightarrow> search_state \<Rightarrow> error + search_state" where
  \<comment> \<open>the loop \<^verbatim>\<open>for (const auto &neighbor : nearest_neighbors)\<close>\<close>
  "SearchLayer_neighbors vertices g base_vector limit [] st = Inr st"
| "SearchLayer_neighbors vertices g base_vector limit (neighbor # rest) st =
     (if neighbor \<in> visited st then SearchLayer_neighbors vertices g base_vector limit rest st
      else
        ebind (nth_checked vertices neighbor) (\<lambda>v.
        ebind (ComputeDistance base_vector v (dist_fn_m g)) (\<lambda>neighbor_dist.
        ebind (update_max_result_dist limit
                 (st\<lparr> visited := insert neighbor (visited st),
                      candidate_queue := candidate_queue st @ [neighbor],
                      result_set := push_bounded CompareByDistance limit (neighbor_dist, neighbor)
                                      (result_set st) \<rparr>))
          (\<lambda>st1.
            SearchLayer_neighbors vertices g base_vector limit rest
              (st1\<lparr> min_candidate_dist := dmin (min_candidate_dist st1) neighbor_dist \<rparr>)))))"

definition SearchLayer_iteration ::
  "Vector list \<Rightarrow> NSW \<Rightarrow> Vector \<Rightarrow> nat \<Rightarrow> nat \<Rightarrow> search_state \<Rightarrow> error + search_state" where
  \<comment> \<open>the body of the while loop up to the test of early termination, for the vertex
      \<open>curr_vertex\<close> popped off the front of the queue\<close>
  "SearchLayer_iteration vertices g base_vector limit curr_vertex st =
     ebind (SelectNeighbors base_vector (edges_at g curr_vertex) vertices limit (dist_fn_m g))
       (\<lambda>nearest_neighbors.
          SearchLayer_neighbors vertices g base_vector limit nearest_neighbors st)"

definition SearchLayer_break :: "nat \<Rightarrow> search_state \<Rightarrow> bool" where
  \<comment> \<open>\<^verbatim>\<open>result_set.size() == limit && min_candidate_dist > max_result_dist\<close>\<close>
  "SearchLayer_break limit st =
     (length (result_set st) = limit \<and> dless (max_result_dist st) (min_candidate_dist st))"

definition nsw_ids :: "NSW \<Rightarrow> nat set" where
  \<comment> \<open>the vertex ids in the adjacency lists of a layer\<close>
  "nsw_ids g = (\<Union>e \<in> set (edges_m g). set (snd e))"

lemma ebind_eq_Inr: "ebind m f = Inr y \<longleftrightarrow> (\<exists>x. m = Inr x \<and> f x = Inr y)"
  by (cases m) auto

lemma finite_nsw_ids: "finite (nsw_ids g)"
  by (simp add: nsw_ids_def)

lemma edges_at_subset: "set (edges_at g v) \<subseteq> nsw_ids g"
proof (cases "map_of (edges_m g) v")
  case None
  then show ?thesis by (simp add: edges_at_def)
next
  case (Some ns)
  then have "(v, ns) \<in> set (edges_m g)" by (rule map_of_SomeD)
  then have "set ns \<subseteq> nsw_ids g" by (force simp: nsw_ids_def)
  with Some show ?thesis by (simp add: edges_at_def)
qed

lemma set_insert_by: "set (insert_by lt x xs) = insert x (set xs)"
  by (induction xs) auto

lemma length_insert_by: "length (insert_by lt x xs) = Suc (length xs)"
  by (induction xs) auto

lemma set_push_bounded: "set (push_bounded cmp bound x heap) \<subseteq> insert x (set heap)"
proof -
  have "set (pq_push cmp x heap) = insert x (set heap)"
    by (simp add: pq_push_def set_insert_by)
  moreover have "set (pq_pop (pq_push cmp x heap)) \<subseteq> set (pq_push cmp x heap)"
    unfolding pq_pop_def by (cases "pq_push cmp x heap") auto
  ultimately show ?thesis
    by (simp add: push_bounded_def Let_def)
qed

lemma SelectNeighbors_loop_subset:
  "SelectNeighbors_loop vec vertices m dist_fn ids heap = Inr heap'
   \<Longrightarrow> snd ` set heap' \<subseteq> snd ` set heap \<union> set ids"
proof (induction ids arbitrary: heap)
  case Nil
  then show ?case by simp
next
  case (Cons a ids)
  from Cons.prems obtain dist where
    rec: "SelectNeighbors_loop vec vertices m dist_fn ids
            (push_bounded SelectNeighbors_cmp m (dist, a) heap) = Inr heap'"
    by (auto simp: ebind_eq_Inr)
  have "snd ` set (push_bounded SelectNeighbors_cmp m (dist, a) heap) \<subseteq> insert a (snd ` set heap)"
    using set_push_bounded[of SelectNeighbors_cmp m "(dist, a)" heap] by force
  with Cons.IH[OF rec] show ?case by auto
qed

lemma SelectNeighbors_subset:
  assumes "SelectNeighbors vec ids vertices m dist_fn = Inr ns"
  shows "set ns \<subseteq> set ids"
proof -
  from assms obtain heap where
    h: "SelectNeighbors_loop vec vertices m dist_fn ids [] = Inr heap" and ns: "ns = map snd heap"
    by (auto simp: SelectNeighbors_def ebind_eq_Inr)
  from SelectNeighbors_loop_subset[OF h] ns show ?thesis by simp
qed

lemma update_max_result_dist_frame:
  "update_max_result_dist limit st = Inr st' \<Longrightarrow>
     visited st' = visited st \<and> candidate_queue st' = candidate_queue st \<and> result_set st' = result_set st
     \<and> min_candidate_dist st' = min_candidate_dist st"
  by (auto simp: update_max_result_dist_def ebind_eq_Inr split: if_splits)

lemma SearchLayer_neighbors_queue:
  "SearchLayer_neighbors vertices g q limit ns st = Inr st' \<Longrightarrow>
     \<exists>new. candidate_queue st' = candidate_queue st @ new \<and> visited st' = visited st \<union> set new
       \<and> set new \<subseteq> set ns - visited st"
proof (induction ns arbitrary: st)
  case Nil
  then show ?case by simp
next
  case (Cons n ns)
  show ?case
  proof (cases "n \<in> visited st")
    case True
    with Cons.prems have "SearchLayer_neighbors vertices g q limit ns st = Inr st'" by simp
    from Cons.IH[OF this] show ?thesis by auto
  next
    case False
    with Cons.prems obtain d st1 where
      st1: "update_max_result_dist limit
              (st\<lparr> visited := insert n (visited st),
                   candidate_queue := candidate_queue st @ [n],
                   result_set := push_bounded CompareByDistance limit (d, n) (result_set st) \<rparr>) = Inr st1"
      and rec: "SearchLayer_neighbors vertices g q limit ns
                  (st1\<lparr> min_candidate_dist := dmin (min_candidate_dist st1) d \<rparr>) = Inr st'"
      by (auto simp: ebind_eq_Inr)
    from update_max_result_dist_frame[OF st1]
    have f: "visited st1 = insert n (visited st)" "candidate_queue st1 = candidate_queue st @ [n]"
      by simp_all
    from Cons.IH[OF rec] obtain new where
      new: "candidate_queue st' = candidate_queue st1 @ new" "visited st' = visited st1 \<union> set new"
        "set new \<subseteq> set ns - visited st1"
      by auto
    have "candidate_queue st' = candidate_queue st @ (n # new)"
      using new(1) f(2) by simp
    moreover have "visited st' = visited st \<union> set (n # new)"
      using new(2) f(1) by simp
    moreover have "set (n # new) \<subseteq> set (n # ns) - visited st"
      using new(3) f(1) False by auto
    ultimately show ?thesis by blast
  qed
qed

lemma SearchLayer_iteration_queue:
  assumes "SearchLayer_iteration vertices g q limit cv st = Inr st'"
  shows "\<exists>new. candidate_queue st' = candidate_queue st @ new \<and> visited st' = visited st \<union> set new
       \<and> set new \<subseteq> nsw_ids g - visited st"
proof -
  from assms obtain ns where
    ns: "SelectNeighbors q (edges_at g cv) vertices limit (dist_fn_m g) = Inr ns"
    and run: "SearchLayer_neighbors vertices g q limit ns st = Inr st'"
    by (auto simp: SearchLayer_iteration_def ebind_eq_Inr)
  from SelectNeighbors_subset[OF ns] edges_at_subset[of g cv] have "set ns \<subseteq> nsw_ids g" by blast
  with SearchLayer_neighbors_queue[OF run] show ?thesis by blast
qed

function SearchLayer_loop ::
  "Vector list \<Rightarrow> NSW \<Rightarrow> Vector \<Rightarrow> nat \<Rightarrow> search_state \<Rightarrow> error + search_state" where
  "SearchLayer_loop vertices g base_vector limit st =
     (case candidate_queue st of
        [] \<Rightarrow> Inr st
      | curr_vertex # rest \<Rightarrow>
          (case SearchLayer_iteration vertices g base_vector limit curr_vertex
                  (st\<lparr> candidate_queue := rest \<rparr>) of
             Inl e \<Rightarrow> Inl e
           | Inr st1 \<Rightarrow>
               if SearchLayer_break limit st1 then Inr st1
               else SearchLayer_loop vertices g base_vector limit st1))"
  by pat_completeness auto
termination
proof (relation "inv_image (measure id <*lex*> measure id)
         (\<lambda>(vertices, g, base_vector, limit, st).
            (card (nsw_ids g - visited st), length (candidate_queue st)))")
  show "wf (inv_image (measure id <*lex*> measure id)
         (\<lambda>(vertices, g, base_vector, limit, st).
            (card (nsw_ids g - visited st), length (candidate_queue st))))"
    by (intro wf_inv_image wf_lex_prod wf_measure)
next
  fix vertices g base_vector limit st cv rest st1
  assume q: "candidate_queue st = cv # rest"
    and it: "SearchLayer_iteration vertices g base_vector limit cv (st\<lparr> candidate_queue := rest \<rparr>) = Inr st1"
  from SearchLayer_iteration_queue[OF it] obtain new where
    new: "candidate_queue st1 = rest @ new" "visited st1 = visited st \<union> set new"
      "set new \<subseteq> nsw_ids g - visited st"
    by auto
  show "((vertices, g, base_vector, limit, st1), (vertices, g, base_vector, limit, st))
        \<in> inv_image (measure id <*lex*> measure id)
         (\<lambda>(vertices, g, base_vector, limit, st).
            (card (nsw_ids g - visited st), length (candidate_queue st)))"
  proof (cases "new = []")
    case True
    with new q show ?thesis by simp
  next
    case False
    then obtain x where x: "x \<in> set new" by (cases new) auto
    have "nsw_ids g - visited st1 \<subset> nsw_ids g - visited st"
      using new x by auto
    then have "card (nsw_ids g - visited st1) < card (nsw_ids g - visited st)"
      by (intro psubset_card_mono) (simp_all add: finite_nsw_ids)
    then show ?thesis by simp
  qed
qed

declare SearchLayer_loop.simps [simp del]

definition init_search_state :: search_state where
  "init_search_state =
     \<lparr> candidate_queue = [], result_set = [], visited = {},
       max_result_dist = DBL_MIN, min_candidate_dist = DBL_MAX \<rparr>"

definition NSW_SearchLayer ::
  "Vector list \<Rightarrow> NSW \<Rightarrow> Vector \<Rightarrow> nat \<Rightarrow> nat list \<Rightarrow> error + nat list" where
  \<comment> \<open>the result heap is emptied from the top, farthest first, and the vector reversed\<close>
  "NSW_SearchLayer vertices g base_vector limit entry_points =
     ebind (SearchLayer_init vertices g base_vector limit entry_points init_search_state) (\<lambda>st0.
     ebind (SearchLayer_loop vertices g base_vector limit st0) (\<lambda>st.
       Inr (rev (map snd (result_set st)))))"

definition NSW_AddVertex :: "NSW \<Rightarrow> nat \<Rightarrow> NSW" where
  "NSW_AddVertex g vertex_id = g\<lparr> in_vertices_m := in_vertices_m g @ [vertex_id] \<rparr>"

definition NSW_Connect :: "NSW \<Rightarrow> nat \<Rightarrow> nat \<Rightarrow> NSW" where
  "NSW_Connect g vertex_a vertex_b =
     (let g1 = edges_update g vertex_a (edges_at g vertex_a @ [vertex_b])
      in edges_update g1 vertex_b (edges_at g1 vertex_b @ [vertex_a]))"

text \<open>
  The index. The members \<^verbatim>\<open>m_l_\<close> and \<^verbatim>\<open>generator_\<close> serve only to draw the level of
  a new vertex; the level drawn is an argument of \<open>HNSWIndex_InsertVectorEntry\<close>.
\<close>

record HNSWIndex = VectorIndex +
  vertices_m :: "Vector list"
  rids_m :: "RID list"
  layers_m :: "NSW list"
  m_m :: nat
  ef_construction_m :: nat
  ef_search_m :: nat
  m_max_m :: nat
  m_max_0_m :: nat

definition size_t_mult :: "nat \<Rightarrow> nat \<Rightarrow> nat" where
  \<comment> \<open>the product of two \<^verbatim>\<open>size_t\<close>: modulo \<open>2^64\<close>\<close>
  "size_t_mult a b = (a * b) mod 2 ^ 64"

definition HNSWIndex_new :: "VectorExpressionType \<Rightarrow> (string \<times> int) list \<Rightarrow> error + HNSWIndex" where
  \<comment> \<open>the constructor: one layer, without vertices, whose cap is \<^verbatim>\<open>m_max_0_ = m_ * m_\<close>\<close>
  "HNSWIndex_new distance_fn options =
     (case (find_option ''m'' options None, find_option ''ef_construction'' options None,
            find_option ''ef_search'' options None) of
        (Some m, Some ef_construction, Some ef_search) \<Rightarrow>
          Inr \<lparr> distance_fn_m = distance_fn, vertices_m = [], rids_m = [],
                layers_m = [\<lparr> dist_fn_m = distance_fn,
                              nsw_m_max_m = size_t_mult (size_t_of_int m) (size_t_of_int m),
                              edges_m = [], in_vertices_m = [] \<rparr>],
                m_m = size_t_of_int m,
                ef_construction_m = size_t_of_int ef_construction,
                ef_search_m = size_t_of_int ef_search,
                m_max_m = size_t_of_int m,
                m_max_0_m = size_t_mult (size_t_of_int m) (size_t_of_int m) \<rparr>
      | _ \<Rightarrow> Inl ExceptionThrown)"

definition HNSWIndex_AddVertex :: "HNSWIndex \<Rightarrow> Vector \<Rightarrow> RID \<Rightarrow> nat \<times> HNSWIndex" where
  "HNSWIndex_AddVertex h vec rid =
     (length (vertices_m h), h\<lparr> vertices_m := vertices_m h @ [vec], rids_m := rids_m h @ [rid] \<rparr>)"

fun scan_descend ::
  "Vector list \<Rightarrow> NSW list \<Rightarrow> Vector \<Rightarrow> nat \<Rightarrow> nat \<Rightarrow> nat list \<Rightarrow> error + nat list" where
  \<comment> \<open>\<^verbatim>\<open>while (i > 0) entry_points = layers_[i--].SearchLayer(base_vector, limit, entry_points);\<close>\<close>
  "scan_descend vertices layers base_vector limit 0 entry_points = Inr entry_points"
| "scan_descend vertices layers base_vector limit (Suc i) entry_points =
     ebind (nth_checked layers (Suc i)) (\<lambda>layer.
     ebind (NSW_SearchLayer vertices layer base_vector limit entry_points) (\<lambda>found.
       scan_descend vertices layers base_vector limit i found))"

fun rids_of :: "RID list \<Rightarrow> nat list \<Rightarrow> error + RID list" where
  \<comment> \<open>\<^verbatim>\<open>for (const auto &id : entry_points) result.push_back(rids_[id]);\<close>\<close>
  "rids_of rids [] = Inr []"
| "rids_of rids (vertex_id # rest) =
     ebind (nth_checked rids vertex_id) (\<lambda>rid.
     ebind (rids_of rids rest) (\<lambda>result. Inr (rid # result)))"

definition last_layer :: "NSW list \<Rightarrow> error + NSW" where
  \<comment> \<open>\<^verbatim>\<open>*layers_.rbegin()\<close> and \<^verbatim>\<open>layers_[layers_.size() - 1]\<close>\<close>
  "last_layer layers = (if layers = [] then Inl OutOfRange else Inr (last layers))"

definition HNSWIndex_ScanVectorKey :: "HNSWIndex \<Rightarrow> Vector \<Rightarrow> nat \<Rightarrow> error + RID list" where
  "HNSWIndex_ScanVectorKey h base_vector limit =
     ebind (last_layer (layers_m h)) (\<lambda>top_layer.
     ebind (NSW_DefaultEntryPoint top_layer) (\<lambda>entry_point.
     ebind (scan_descend (vertices_m h) (layers_m h) base_vector limit
              (length (layers_m h) - 1) [entry_point]) (\<lambda>entry_points.
     ebind (nth_checked (layers_m h) 0) (\<lambda>layer0.
     ebind (NSW_SearchLayer (vertices_m h) layer0 base_vector limit entry_points) (\<lambda>found.
       rids_of (rids_m h) found)))))"

fun insert_upper ::
  "HNSWIndex \<Rightarrow> Vector \<Rightarrow> nat \<Rightarrow> nat \<Rightarrow> nat list \<Rightarrow> error + (nat \<times> nat list)" where
  \<comment> \<open>the loop \<^verbatim>\<open>for (; level > target_level; level--)\<close> of \<^verbatim>\<open>InsertVectorEntry\<close>; it
      returns the level it stops at and the entry points\<close>
  "insert_upper h key 0 target_level entry_points = Inr (0, entry_points)"
| "insert_upper h key (Suc level) target_level entry_points =
     (if target_level < Suc level
      then
        ebind (nth_checked (layers_m h) (Suc level)) (\<lambda>layer.
        ebind (NSW_SearchLayer (vertices_m h) layer key (ef_search_m h) entry_points) (\<lambda>found.
        ebind (SelectNeighbors key found (vertices_m h) 1 (distance_fn_m h)) (\<lambda>nearest_elements.
        ebind (nth_checked nearest_elements 0) (\<lambda>nearest.
          insert_upper h key level target_level [nearest]))))
      else Inr (Suc level, entry_points))"

definition connect_all :: "NSW \<Rightarrow> nat \<Rightarrow> nat list \<Rightarrow> NSW" where
  \<comment> \<open>\<^verbatim>\<open>for (const auto neighbor : neighbors) layer.Connect(vertex_id, neighbor);\<close>\<close>
  "connect_all g vertex_id neighbors = foldl (\<lambda>g1 neighbor. NSW_Connect g1 vertex_id neighbor) g neighbors"

fun shrink_neighbors :: "HNSWIndex \<Rightarrow> nat list \<Rightarrow> NSW \<Rightarrow> error + NSW" where
  \<comment> \<open>the second loop over \<open>neighbors\<close>: the test is against \<^verbatim>\<open>m_max_\<close> of the index,
      the new size is \<^verbatim>\<open>layer.m_max_\<close>\<close>
  "shrink_neighbors h [] g = Inr g"
| "shrink_neighbors h (neighbor # rest) g =
     (if m_max_m h < length (edges_at g neighbor)
      then
        ebind (nth_checked (vertices_m h) neighbor) (\<lambda>v.
        ebind (SelectNeighbors v (edges_at g neighbor) (vertices_m h) (nsw_m_max_m g) (distance_fn_m h))
          (\<lambda>new_neighbors. shrink_neighbors h rest (edges_update g neighbor new_neighbors)))
      else shrink_neighbors h rest g)"

fun insert_lower ::
  "HNSWIndex \<Rightarrow> Vector \<Rightarrow> nat \<Rightarrow> nat \<Rightarrow> nat list \<Rightarrow> error + HNSWIndex" where
  \<comment> \<open>the loop \<^verbatim>\<open>for (; level >= 0; level--)\<close>; the fourth argument is \<open>level + 1\<close>\<close>
  "insert_lower h key vertex_id 0 entry_points = Inr h"
| "insert_lower h key vertex_id (Suc level) entry_points =
     ebind (nth_checked (layers_m h) level) (\<lambda>layer.
     ebind (NSW_SearchLayer (vertices_m h) layer key (ef_construction_m h) entry_points) (\<lambda>nearest_elements.
     ebind (SelectNeighbors key nearest_elements (vertices_m h) (m_m h) (distance_fn_m h)) (\<lambda>neighbors.
     ebind (shrink_neighbors h neighbors
              (connect_all (NSW_AddVertex layer vertex_id) vertex_id neighbors)) (\<lambda>layer1.
       insert_lower (h\<lparr> layers_m := (layers_m h)[level := layer1] \<rparr>) key vertex_id level
         nearest_elements))))"

definition new_layers :: "HNSWIndex \<Rightarrow> nat \<Rightarrow> nat \<Rightarrow> HNSWIndex" where
  \<comment> \<open>\<^verbatim>\<open>while (layers_.size() <= target_level)\<close>: layers that hold the new vertex only\<close>
  "new_layers h vertex_id target_level =
     h\<lparr> layers_m := layers_m h @
          replicate (Suc target_level - length (layers_m h))
            \<lparr> dist_fn_m = distance_fn_m h, nsw_m_max_m = m_max_m h,
              edges_m = [], in_vertices_m = [vertex_id] \<rparr> \<rparr>"

definition HNSWIndex_InsertVectorEntry ::
  "HNSWIndex \<Rightarrow> Vector \<Rightarrow> RID \<Rightarrow> nat \<Rightarrow> error + HNSWIndex" where
  \<comment> \<open>\<open>target_level\<close> is the level that the random generator draws\<close>
  "HNSWIndex_InsertVectorEntry h key rid target_level =
     (case HNSWIndex_AddVertex h key rid of (vertex_id, h1) \<Rightarrow>
        ebind (nth_checked (layers_m h1) 0) (\<lambda>layer0.
        ebind
          (if in_vertices_m layer0 \<noteq> []
           then
             ebind (last_layer (layers_m h1)) (\<lambda>top_layer.
             ebind (NSW_DefaultEntryPoint top_layer) (\<lambda>entry_point.
             ebind (insert_upper h1 key (length (layers_m h1) - 1) target_level [entry_point])
               (\<lambda>(level, entry_points). insert_lower h1 key vertex_id (Suc level) entry_points)))
           else Inr (h1\<lparr> layers_m := (layers_m h1)[0 := NSW_AddVertex layer0 vertex_id] \<rparr>))
          (\<lambda>h2. Inr (new_layers h2 vertex_id target_level))))"

definition layers_metric :: "HNSWIndex \<Rightarrow> bool" where
  \<comment> \<open>every layer carries the metric of the index, as the constructor and
      \<^verbatim>\<open>InsertVectorEntry\<close> make the layers\<close>
  "layers_metric h \<longleftrightarrow> (\<forall>layer \<in> set (layers_m h). dist_fn_m layer = distance_fn_m h)"

text \<open>
  The scan as the spec describes it, on the layer search of the code: "descend from the top
  layer to layer 1 with \<open>ef = 1\<close>, refining a single entry point"; "at layer 0, call
  \<open>SearchLayer(0, base_vector, ef = max(ef_search, limit), ep)\<close>"; "take the first
  \<open>limit\<close> RIDs of the result".
\<close>

fun spec_scan_descend ::
  "Vector list \<Rightarrow> NSW list \<Rightarrow> Vector \<Rightarrow> nat \<Rightarrow> nat list \<Rightarrow> error + nat list" where
  "spec_scan_descend vertices layers base_vector 0 entry_points = Inr entry_points"
| "spec_scan_descend vertices layers base_vector (Suc i) entry_points =
     ebind (nth_checked layers (Suc i)) (\<lambda>layer.
     ebind (NSW_SearchLayer vertices layer base_vector 1 entry_points) (\<lambda>found.
       spec_scan_descend vertices layers base_vector i (take 1 found)))"

definition spec_ScanVectorKey :: "HNSWIndex \<Rightarrow> Vector \<Rightarrow> nat \<Rightarrow> error + RID list" where
  "spec_ScanVectorKey h base_vector limit =
     (if vertices_m h = [] then Inr []
      else
        ebind (last_layer (layers_m h)) (\<lambda>top_layer.
        ebind (NSW_DefaultEntryPoint top_layer) (\<lambda>entry_point.
        ebind (spec_scan_descend (vertices_m h) (layers_m h) base_vector
                 (length (layers_m h) - 1) [entry_point]) (\<lambda>entry_points.
        ebind (nth_checked (layers_m h) 0) (\<lambda>layer0.
        ebind (NSW_SearchLayer (vertices_m h) layer0 base_vector (max (ef_search_m h) limit)
                 entry_points) (\<lambda>found.
          rids_of (rids_m h) (take limit found)))))))"

subsection \<open>A run of the IVFFlat index\<close>

text \<open>
  Two points on the line, an index of two lists, and the shuffle \<open>ex_shuffle\<close> that leaves
  the index vector \<open>[0, 1]\<close> as it is. \<open>ivf_built\<close> is what \<open>IVFFlatIndex_BuildIndex\<close>
  makes of it. An iteration of the refinement adds both points to the second centroid
  \<open>[c]\<close> and halves the sum (\<open>ex_refine\<close>); from \<open>[11]\<close> the second centroid is
  \<open>[21 - 10 / 2^k]\<close> after \<open>k \<le> 49\<close> iterations, and \<open>[21]\<close> from the iteration 52
  on, where the sum \<open>42 - 1 / 2^48\<close> is rounded to \<open>42\<close>.
\<close>

definition ex_data :: "(Vector \<times> RID) list" where
  "ex_data = [([Fin 10], 0), ([Fin 11], 1)]"

definition ex_shuffle :: "nat list" where
  "ex_shuffle = [0, 1]"

definition ivf_new :: "VectorExpressionType \<Rightarrow> nat \<Rightarrow> IVFFlatIndex" where
  "ivf_new metric probe =
     \<lparr> distance_fn_m = metric, lists_m = 2, probe_lists_m = probe,
       centroids_m = [], centroids_buckets_m = [] \<rparr>"

definition ex_refine :: "real \<Rightarrow> double" where
  "ex_refine c = ddiv (dadd (dadd (Fin c) (Fin 10)) (Fin 11)) (double_of_nat 2)"

definition ivf_built :: "VectorExpressionType \<Rightarrow> nat \<Rightarrow> IVFFlatIndex" where
  "ivf_built metric probe =
     \<lparr> distance_fn_m = metric, lists_m = 2, probe_lists_m = probe,
       centroids_m = [[Fin 10], [Fin 21]],
       centroids_buckets_m = [[], [([Fin 10], 0), ([Fin 11], 1)]] \<rparr>"

text \<open>
  The scan as a single descent: the layers from the top one down to layer 0, each searched
  with the same \<open>ef\<close>, the whole result of a layer being the entry points of the next.
\<close>

fun search_down ::
  "Vector list \<Rightarrow> Vector \<Rightarrow> nat \<Rightarrow> NSW list \<Rightarrow> nat list \<Rightarrow> error + nat list" where
  "search_down vertices base_vector ef [] entry_points = Inr entry_points"
| "search_down vertices base_vector ef (layer # below) entry_points =
     ebind (NSW_SearchLayer vertices layer base_vector ef entry_points)
       (search_down vertices base_vector ef below)"

subsection \<open>A run of the HNSW index\<close>

text \<open>
  An index with \<open>m = 2\<close>, \<open>ef_construction = 1\<close>, \<open>ef_search = 3\<close> and the metric L2,
  and three points on the line inserted one after the other, each with the level 0 drawn:
  \<open>[10]\<close> (RID 100), \<open>[5]\<close> (RID 101) and \<open>[0]\<close> (RID 102). The layer 0 of \<open>hnsw3\<close>
  is the path \<open>0 \<midarrow> 1 \<midarrow> 2\<close>.
\<close>

definition hnsw_options :: "(string \<times> int) list" where
  "hnsw_options = [(''m'', 2), (''ef_construction'', 1), (''ef_search'', 3)]"

definition hnsw0 :: HNSWIndex where
  "hnsw0 = \<lparr> distance_fn_m = L2Dist, vertices_m = [], rids_m = [],
          layers_m = [\<lparr> dist_fn_m = L2Dist, nsw_m_max_m = 4, edges_m = [], in_vertices_m = [] \<rparr>],
          m_m = 2, ef_construction_m = 1, ef_search_m = 3, m_max_m = 2, m_max_0_m = 4 \<rparr>"

definition hnsw1 :: HNSWIndex where
  "hnsw1 = hnsw0\<lparr> vertices_m := [[Fin 10]], rids_m := [100],
          layers_m := [\<lparr> dist_fn_m = L2Dist, nsw_m_max_m = 4, edges_m = [], in_vertices_m = [0] \<rparr>] \<rparr>"

definition hnsw2 :: HNSWIndex where
  "hnsw2 = hnsw0\<lparr> vertices_m := [[Fin 10], [Fin 5]], rids_m := [100, 101],
          layers_m := [\<lparr> dist_fn_m = L2Dist, nsw_m_max_m = 4,
                         edges_m = [(0, [1]), (1, [0])], in_vertices_m = [0, 1] \<rparr>] \<rparr>"

definition hnsw3 :: HNSWIndex where
  "hnsw3 = hnsw0\<lparr> vertices_m := [[Fin 10], [Fin 5], [Fin 0]], rids_m := [100, 101, 102],
          layers_m := [\<lparr> dist_fn_m = L2Dist, nsw_m_max_m = 4,
                         edges_m = [(1, [0, 2]), (2, [1]), (0, [1])], in_vertices_m = [0, 1, 2] \<rparr>] \<rparr>"

text \<open>
  A second index with the same options and six points on the line, each with the level 0
  drawn: \<open>[0]\<close>, \<open>[10]\<close>, \<open>[-11]\<close>, \<open>[20]\<close>, \<open>[-21]\<close> and \<open>[1]\<close>, with
  the RIDs 100 to 105. \<open>star_index\<close> is an index of one layer with the given vertex
  table, RIDs and adjacency; \<open>hnsw_star\<close> is the index after the six insertions. Every
  point is connected to vertex 0; when the last one is, vertex 0 has five neighbours and
  its adjacency is cut down to four, which removes the new vertex 5 from it.
\<close>

definition star_index :: "Vector list \<Rightarrow> RID list \<Rightarrow> (nat \<times> nat list) list \<Rightarrow> HNSWIndex" where
  "star_index vertices rids edges =
     hnsw0\<lparr> vertices_m := vertices, rids_m := rids,
            layers_m := [\<lparr> dist_fn_m = L2Dist, nsw_m_max_m = 4, edges_m = edges,
                           in_vertices_m = [0..<length vertices] \<rparr>] \<rparr>"

definition hnsw_star :: HNSWIndex where
  "hnsw_star =
     star_index [[Fin 0], [Fin 10], [Fin (- 11)], [Fin 20], [Fin (- 21)], [Fin 1]]
       [100, 101, 102, 103, 104, 105]
       [(0, [1, 2, 3, 4]), (5, [0]), (4, [0]), (3, [0]), (2, [0]), (1, [0])]"

subsection \<open>The optimizer rule (vector_index_scan.cpp)\<close>

text \<open>
  Modelled from the spec: the plan nodes, the expressions and the catalog are declared in
  headers that are not among the sources. The spec has an "arbitrary plan tree" with the
  nodes \<open>TopN{n, order_by}\<close>, \<open>Projection\<close>, \<open>SeqScan{table}\<close> and
  \<open>VectorIndexScan{schema, table, index_oid, index_name, base_vector, limit}\<close>, and
  \<open>catalog.indexes(T)\<close>; the fields are the ones vector_index_scan.cpp reads. An
  expression is its kind and the vector \<^verbatim>\<open>children_\<close>; a plan node is its kind, its output
  schema and the vector \<^verbatim>\<open>children_\<close> of shared pointers, \<open>None\<close> being the null
  pointer.
\<close>

datatype expression_kind =
    ColumnValueExpression nat
  | ConstantValueExpression real
  | ArrayExpression
  | VectorExpression VectorExpressionType
  | OtherExpression

datatype AbstractExpression = Expression expression_kind "AbstractExpression list"

fun expr_kind :: "AbstractExpression \<Rightarrow> expression_kind" where
  "expr_kind (Expression kind children) = kind"

fun expr_children :: "AbstractExpression \<Rightarrow> AbstractExpression list" where
  "expr_children (Expression kind children) = children"

definition GetChildAt :: "AbstractExpression \<Rightarrow> nat \<Rightarrow> error + AbstractExpression" where
  \<comment> \<open>\<^verbatim>\<open>children_[child_idx]\<close>\<close>
  "GetChildAt e child_idx = nth_checked (expr_children e) child_idx"

datatype OrderByType = DEFAULT | ASC | DESC

datatype PlanType = SeqScan | Projection | TopN | VectorIndexScan | Sort | Limit | Filter | Values

datatype other_plan_type = SortPlan | LimitPlan | FilterPlan | ValuesPlan

fun PlanType_of :: "other_plan_type \<Rightarrow> PlanType" where
  "PlanType_of SortPlan = Sort"
| "PlanType_of LimitPlan = Limit"
| "PlanType_of FilterPlan = Filter"
| "PlanType_of ValuesPlan = Values"

type_synonym Schema = "string list"

datatype plan_node =
    SeqScanPlanNode nat
      \<comment> \<open>table oid\<close>
  | ProjectionPlanNode "AbstractExpression list"
  | TopNPlanNode "(OrderByType \<times> AbstractExpression) list" nat
      \<comment> \<open>order-bys and \<open>n\<close>\<close>
  | VectorIndexScanPlanNode nat string nat string AbstractExpression nat
      \<comment> \<open>table oid, table name, index oid, index name, base vector, limit\<close>
  | OtherPlanNode other_plan_type

datatype AbstractPlanNode = Plan plan_node Schema "AbstractPlanNode option list"

type_synonym AbstractPlanNodeRef = "AbstractPlanNode option"

fun GetType :: "AbstractPlanNode \<Rightarrow> PlanType" where
  "GetType (Plan (SeqScanPlanNode table_oid) schema children) = SeqScan"
| "GetType (Plan (ProjectionPlanNode exprs) schema children) = Projection"
| "GetType (Plan (TopNPlanNode order_bys n) schema children) = TopN"
| "GetType (Plan (VectorIndexScanPlanNode t tn i iname base_vector limit) schema children) = VectorIndexScan"
| "GetType (Plan (OtherPlanNode other) schema children) = PlanType_of other"

fun GetChildren :: "AbstractPlanNode \<Rightarrow> AbstractPlanNodeRef list" where
  "GetChildren (Plan node schema children) = children"

fun OutputSchema :: "AbstractPlanNode \<Rightarrow> Schema" where
  "OutputSchema (Plan node schema children) = schema"

fun plan_node_of :: "AbstractPlanNode \<Rightarrow> plan_node" where
  "plan_node_of (Plan node schema children) = node"

datatype TypeId = VECTOR | OtherTypeId

datatype IndexType = VectorHNSWIndex | VectorIVFFlatIndex | OtherIndexType

record IndexInfo =
  key_schema_m :: "TypeId list"
  name_m :: string
  index_oid_m :: nat
  index_type_m :: IndexType

record Catalog =
  GetTable :: "nat \<Rightarrow> string option"
    \<comment> \<open>the name of the table of an oid, or the null pointer\<close>
  GetTableIndexes :: "string \<Rightarrow> IndexInfo list"

record Optimizer =
  catalog_m :: Catalog
  vector_index_match_method_m :: string

fun MatchVectorIndex_loop ::
  "IndexInfo list \<Rightarrow> nat \<Rightarrow> VectorExpressionType \<Rightarrow> string \<Rightarrow> (IndexInfo \<times> string) option" where
  \<comment> \<open>the loop over the indexes of the table; the string returned with the index is the
      index name that the code stores into \<^verbatim>\<open>vector_index_match_method\<close>\<close>
  "MatchVectorIndex_loop [] col_idx dist_fn vector_index_match_method = None"
| "MatchVectorIndex_loop (index_info # rest) col_idx dist_fn vector_index_match_method =
     (if col_idx < length (key_schema_m index_info)
         \<and> (index_type_m index_info = VectorHNSWIndex \<or> index_type_m index_info = VectorIVFFlatIndex)
         \<and> ((dist_fn = L2Dist \<and> key_schema_m index_info ! col_idx = VECTOR)
            \<or> (dist_fn = CosineSimilarity \<and> key_schema_m index_info ! col_idx = VECTOR)
            \<or> (dist_fn = InnerProduct \<and> key_schema_m index_info ! col_idx = VECTOR))
      then
        if vector_index_match_method = [] \<or> vector_index_match_method = ''default''
        then Some (index_info, name_m index_info)
        else if vector_index_match_method = ''hnsw'' \<and> index_type_m index_info = VectorHNSWIndex
        then Some (index_info, name_m index_info)
        else if vector_index_match_method = ''ivfflat'' \<and> index_type_m index_info = VectorIVFFlatIndex
        then Some (index_info, name_m index_info)
        else if vector_index_match_method = ''none''
        then None
        else MatchVectorIndex_loop rest col_idx dist_fn vector_index_match_method
      else MatchVectorIndex_loop rest col_idx dist_fn vector_index_match_method)"

definition MatchVectorIndex ::
  "Catalog \<Rightarrow> nat \<Rightarrow> nat \<Rightarrow> VectorExpressionType \<Rightarrow> string \<Rightarrow> (IndexInfo \<times> string) option" where
  "MatchVectorIndex catalog table_oid col_idx dist_fn vector_index_match_method =
     (case GetTable catalog table_oid of
        None \<Rightarrow> None
      | Some table_name \<Rightarrow>
          MatchVectorIndex_loop (GetTableIndexes catalog table_name) col_idx dist_fn
            vector_index_match_method)"

definition base_vector_children :: "AbstractExpression \<Rightarrow> error + AbstractExpression list" where
  \<comment> \<open>the loop \<^verbatim>\<open>for (i = 0; i <= order_by->children_.size(); i++)\<close> that pushes
      \<^verbatim>\<open>order_by->children_[0]->GetChildAt(i)\<close>, for the expression \<open>order_by\<close> of the first
      order-by\<close>
  "base_vector_children order_by =
     emap (\<lambda>i. ebind (nth_checked (expr_children order_by) 0) (\<lambda>first. GetChildAt first i))
       [0..<Suc (length (expr_children order_by))]"

definition projection_dist_fn :: "AbstractExpression list \<Rightarrow> VectorExpressionType \<Rightarrow> VectorExpressionType" where
  \<comment> \<open>the loop over the expressions of the projection: the last vector expression gives
      \<open>dist_fn\<close>\<close>
  "projection_dist_fn exprs dist_fn =
     foldl (\<lambda>fn expr. case expr_kind expr of VectorExpression t \<Rightarrow> t | _ \<Rightarrow> fn) dist_fn exprs"

definition seq_scan_table :: "AbstractPlanNodeRef \<Rightarrow> (nat \<times> Schema) option" where
  \<comment> \<open>\<^verbatim>\<open>std::dynamic_pointer_cast<const SeqScanPlanNode>\<close>: the table oid and the schema of a
      sequential scan, the null pointer for any other node and for the null pointer\<close>
  "seq_scan_table ref =
     (case ref of
        None \<Rightarrow> None
      | Some p \<Rightarrow>
          (case plan_node_of p of
             SeqScanPlanNode table_oid \<Rightarrow> Some (table_oid, OutputSchema p)
           | _ \<Rightarrow> None))"

definition deref :: "AbstractPlanNodeRef \<Rightarrow> error + AbstractPlanNode" where
  \<comment> \<open>\<^verbatim>\<open>ref->\<close>: undefined on the null pointer\<close>
  "deref ref = (case ref of None \<Rightarrow> Inl NullDeref | Some p \<Rightarrow> Inr p)"

definition rewrite_TopN ::
  "Optimizer \<Rightarrow> AbstractPlanNode \<Rightarrow> (OrderByType \<times> AbstractExpression) list \<Rightarrow> nat
     \<Rightarrow> error + AbstractPlanNode" where
  \<comment> \<open>the body of the rule once \<open>plan\<close> is known to be a TopN node; the new projection is
      constructed with the null pointer as its child and then given the index scan by
      \<^verbatim>\<open>children_.push_back\<close>: it has two children, the null pointer and the index scan\<close>
  "rewrite_TopN opt plan order_bys limit =
     ebind (nth_checked order_bys 0) (\<lambda>first_order_by.
     ebind (base_vector_children (snd first_order_by)) (\<lambda>array_children.
     ebind (nth_checked (GetChildren plan) 0) (\<lambda>child_ref.
     ebind (deref child_ref) (\<lambda>child.
     ebind
       (if GetType child = Projection
        then ebind (nth_checked (GetChildren child) 0) (\<lambda>grandchild.
               Inr (Some child, seq_scan_table grandchild))
        else if GetType child = SeqScan then Inr (None, seq_scan_table child_ref)
        else Inr (None, None))
       (\<lambda>(projection_plan, seq_scan_plan).
          case seq_scan_plan of
            None \<Rightarrow> Inr plan
          | Some (table_oid, seq_scan_schema) \<Rightarrow>
              (let dist_fn =
                     (case projection_plan of
                        None \<Rightarrow> L2Dist
                      | Some projection \<Rightarrow>
                          (case plan_node_of projection of
                             ProjectionPlanNode exprs \<Rightarrow> projection_dist_fn exprs L2Dist
                           | _ \<Rightarrow> L2Dist));
                   vector_index_match_method =
                     (if vector_index_match_method_m opt \<noteq> [] then vector_index_match_method_m opt
                      else ''default'')
               in case MatchVectorIndex (catalog_m opt) table_oid 0 dist_fn vector_index_match_method of
                    None \<Rightarrow> Inr plan
                  | Some (index_info, index_name) \<Rightarrow>
                      (case GetTable (catalog_m opt) table_oid of
                         None \<Rightarrow> Inl NullDeref
                       | Some table_name \<Rightarrow>
                           (let vector_index_scan_plan =
                                  Plan (VectorIndexScanPlanNode table_oid table_name
                                          (index_oid_m index_info) index_name
                                          (Expression ArrayExpression array_children) limit)
                                    seq_scan_schema []
                            in case projection_plan of
                                 None \<Rightarrow> Inr vector_index_scan_plan
                               | Some projection \<Rightarrow>
                                   (case plan_node_of projection of
                                      ProjectionPlanNode exprs \<Rightarrow>
                                        Inr (Plan (ProjectionPlanNode exprs) (OutputSchema projection)
                                               [None, Some vector_index_scan_plan])
                                    | _ \<Rightarrow> Inl NullDeref)))))))))"

fun OptimizeAsVectorIndexScan :: "Optimizer \<Rightarrow> AbstractPlanNode \<Rightarrow> error + AbstractPlanNode" where
  \<comment> \<open>the optimized children are computed first and not used afterwards; the call on a
      child that is the null pointer dereferences it\<close>
  "OptimizeAsVectorIndexScan opt (Plan node schema children) =
     ebind (emap (\<lambda>child. case child of
                            None \<Rightarrow> Inl NullDeref
                          | Some c \<Rightarrow> OptimizeAsVectorIndexScan opt c) children)
       (\<lambda>optimized_children.
       if GetType (Plan node schema children) = SeqScan
          \<or> GetType (Plan node schema children) = Projection
       then Inr (Plan node schema children)
       else
         case node of
           TopNPlanNode order_bys n \<Rightarrow> rewrite_TopN opt (Plan node schema children) order_bys n
         | _ \<Rightarrow> Inr (Plan node schema children))"

text \<open>
  Plans for the table \<open>t\<close> (oid 0), whose first column is the vector column \<open>v\<close>, with an
  HNSW index \<open>idx\<close> (oid 7) on it. \<open>plan_order_by_column\<close> is the plan of
  \<^verbatim>\<open>SELECT v FROM t ORDER BY v LIMIT 3\<close>; \<open>plan_column_first\<close> orders by
  \<^verbatim>\<open>l2_dist(v, ARRAY[1, 2, 3])\<close>, \<open>plan_array_first\<close> by \<^verbatim>\<open>l2_dist(ARRAY[1, 2, 3], v)\<close>.
\<close>

definition ex_optimizer :: Optimizer where
  "ex_optimizer =
     \<lparr> catalog_m =
         \<lparr> GetTable = (\<lambda>oid. if oid = 0 then Some ''t'' else None),
           GetTableIndexes = (\<lambda>name. if name = ''t''
              then [\<lparr> key_schema_m = [VECTOR], name_m = ''idx'', index_oid_m = 7,
                      index_type_m = VectorHNSWIndex \<rparr>]
              else []) \<rparr>,
       vector_index_match_method_m = '''' \<rparr>"

definition column_v :: AbstractExpression where
  "column_v = Expression (ColumnValueExpression 0) []"

definition array_123 :: AbstractExpression where
  "array_123 =
     Expression ArrayExpression
       [Expression (ConstantValueExpression 1) [], Expression (ConstantValueExpression 2) [],
        Expression (ConstantValueExpression 3) []]"

definition projection_over_scan :: AbstractPlanNode where
  "projection_over_scan =
     Plan (ProjectionPlanNode [column_v]) [''v''] [Some (Plan (SeqScanPlanNode 0) [''v''] [])]"

definition plan_order_by_column :: AbstractPlanNode where
  "plan_order_by_column =
     Plan (TopNPlanNode [(DEFAULT, column_v)] 3) [''v''] [Some projection_over_scan]"

definition plan_column_first :: AbstractPlanNode where
  "plan_column_first =
     Plan (TopNPlanNode [(ASC, Expression (VectorExpression L2Dist) [column_v, array_123])] 3) [''v'']
       [Some projection_over_scan]"

definition plan_array_first :: AbstractPlanNode where
  "plan_array_first =
     Plan (TopNPlanNode [(ASC, Expression (VectorExpression L2Dist) [array_123, column_v])] 3) [''v'']
       [Some projection_over_scan]"

subsection \<open>The layer search as the spec describes it\<close>

text \<open>
  "Maintain a visited set, a candidate queue, and a result max-heap of size \<open>\<le> ef\<close> keyed
  on distance-to-\<open>q\<close>. Seed: push each entry point to the candidate queue and the result
  heap, mark visited. Greedy loop: pop the candidate nearest to \<open>q\<close>. If its distance
  exceeds the result heap's current maximum and the heap is already full (size = \<open>ef\<close>),
  stop. Otherwise for each neighbor in \<open>L.adj[candidate]\<close> not yet visited: mark visited,
  compute its distance, push to candidates, and admit to the result heap (evicting the
  farthest if size \<open>> ef\<close>). On exit, return the heap members sorted by ascending
  distance." The candidate structure is a min-heap on the distance.
\<close>

record spec_search_state =
  spec_candidates :: "(double \<times> nat) list"
  spec_results :: "(double \<times> nat) list"
  spec_visited :: "nat set"

definition nearer_on_top :: "double \<times> nat \<Rightarrow> double \<times> nat \<Rightarrow> bool" where
  \<comment> \<open>the comparator of a min-heap on the distance\<close>
  "nearer_on_top a b = dless (fst b) (fst a)"

definition vertex_distance :: "Vector list \<Rightarrow> NSW \<Rightarrow> Vector \<Rightarrow> nat \<Rightarrow> error + double" where
  \<comment> \<open>\<^verbatim>\<open>ComputeDistance(base_vector, vertices_[v], dist_fn_)\<close>\<close>
  "vertex_distance vertices g base_vector v =
     ebind (nth_checked vertices v) (\<lambda>vec. ComputeDistance base_vector vec (dist_fn_m g))"

fun spec_seed ::
  "Vector list \<Rightarrow> NSW \<Rightarrow> Vector \<Rightarrow> nat list \<Rightarrow> spec_search_state \<Rightarrow> error + spec_search_state" where
  "spec_seed vertices g q [] st = Inr st"
| "spec_seed vertices g q (entry_point # rest) st =
     ebind (vertex_distance vertices g q entry_point) (\<lambda>dist.
       spec_seed vertices g q rest
         (st\<lparr> spec_candidates := pq_push nearer_on_top (dist, entry_point) (spec_candidates st),
              spec_results := pq_push CompareByDistance (dist, entry_point) (spec_results st),
              spec_visited := insert entry_point (spec_visited st) \<rparr>))"

fun spec_neighbors ::
  "Vector list \<Rightarrow> NSW \<Rightarrow> Vector \<Rightarrow> nat \<Rightarrow> nat list \<Rightarrow> spec_search_state \<Rightarrow> error + spec_search_state" where
  "spec_neighbors vertices g q ef [] st = Inr st"
| "spec_neighbors vertices g q ef (neighbor # rest) st =
     (if neighbor \<in> spec_visited st then spec_neighbors vertices g q ef rest st
      else
        ebind (vertex_distance vertices g q neighbor) (\<lambda>dist.
          spec_neighbors vertices g q ef rest
            (st\<lparr> spec_visited := insert neighbor (spec_visited st),
                 spec_candidates := pq_push nearer_on_top (dist, neighbor) (spec_candidates st),
                 spec_results := push_bounded CompareByDistance ef (dist, neighbor) (spec_results st) \<rparr>)))"

definition exceeds_maximum :: "double \<Rightarrow> (double \<times> nat) list \<Rightarrow> bool" where
  \<comment> \<open>the distance exceeds the current maximum of the result heap\<close>
  "exceeds_maximum d results = (case results of [] \<Rightarrow> False | farthest # rest \<Rightarrow> dless (fst farthest) d)"

lemma spec_neighbors_visited:
  "spec_neighbors vertices g q ef ns st = Inr st' \<Longrightarrow>
     \<exists>new. length (spec_candidates st') = length (spec_candidates st) + length new
       \<and> spec_visited st' = spec_visited st \<union> set new \<and> set new \<subseteq> set ns - spec_visited st"
proof (induction ns arbitrary: st)
  case Nil
  then show ?case by simp
next
  case (Cons n ns)
  show ?case
  proof (cases "n \<in> spec_visited st")
    case True
    with Cons.prems have "spec_neighbors vertices g q ef ns st = Inr st'" by simp
    from Cons.IH[OF this] show ?thesis by auto
  next
    case False
    with Cons.prems obtain d where
      rec: "spec_neighbors vertices g q ef ns
              (st\<lparr> spec_visited := insert n (spec_visited st),
                   spec_candidates := pq_push nearer_on_top (d, n) (spec_candidates st),
                   spec_results := push_bounded CompareByDistance ef (d, n) (spec_results st) \<rparr>) = Inr st'"
      by (auto simp: ebind_eq_Inr)
    from Cons.IH[OF rec] obtain new where
      new: "length (spec_candidates st') = Suc (length (spec_candidates st)) + length new"
        "spec_visited st' = insert n (spec_visited st) \<union> set new"
        "set new \<subseteq> set ns - insert n (spec_visited st)"
      by (auto simp: pq_push_def length_insert_by)
    have "length (spec_candidates st') = length (spec_candidates st) + length (n # new)"
      using new(1) by simp
    moreover have "spec_visited st' = spec_visited st \<union> set (n # new)"
      using new(2) by simp
    moreover have "set (n # new) \<subseteq> set (n # ns) - spec_visited st"
      using new(3) False by auto
    ultimately show ?thesis by blast
  qed
qed

function spec_loop ::
  "Vector list \<Rightarrow> NSW \<Rightarrow> Vector \<Rightarrow> nat \<Rightarrow> spec_search_state \<Rightarrow> error + spec_search_state" where
  "spec_loop vertices g q ef st =
     (case spec_candidates st of
        [] \<Rightarrow> Inr st
      | nearest # rest \<Rightarrow>
          if length (spec_results st) = ef \<and> exceeds_maximum (fst nearest) (spec_results st)
          then Inr st
          else
            (case spec_neighbors vertices g q ef (edges_at g (snd nearest))
                    (st\<lparr> spec_candidates := rest \<rparr>) of
               Inl e \<Rightarrow> Inl e
             | Inr st1 \<Rightarrow> spec_loop vertices g q ef st1))"
  by pat_completeness auto
termination
proof (relation "inv_image (measure id <*lex*> measure id)
         (\<lambda>(vertices, g, q, ef, st).
            (card (nsw_ids g - spec_visited st), length (spec_candidates st)))")
  show "wf (inv_image (measure id <*lex*> measure id)
         (\<lambda>(vertices, g, q, ef, st).
            (card (nsw_ids g - spec_visited st), length (spec_candidates st))))"
    by (intro wf_inv_image wf_lex_prod wf_measure)
next
  fix vertices g q ef st nearest rest st1
  assume c: "spec_candidates st = nearest # rest"
    and it: "spec_neighbors vertices g q ef (edges_at g (snd nearest))
               (st\<lparr> spec_candidates := rest \<rparr>) = Inr st1"
  from spec_neighbors_visited[OF it] obtain new where
    new: "length (spec_candidates st1) = length rest + length new"
      "spec_visited st1 = spec_visited st \<union> set new"
      "set new \<subseteq> set (edges_at g (snd nearest)) - spec_visited st"
    by auto
  show "((vertices, g, q, ef, st1), (vertices, g, q, ef, st))
        \<in> inv_image (measure id <*lex*> measure id)
         (\<lambda>(vertices, g, q, ef, st).
            (card (nsw_ids g - spec_visited st), length (spec_candidates st)))"
  proof (cases "new = []")
    case True
    with new c show ?thesis by simp
  next
    case False
    then obtain x where x: "x \<in> set new" by (cases new) auto
    have "nsw_ids g - spec_visited st1 \<subset> nsw_ids g - spec_visited st"
      using new x edges_at_subset[of g "snd nearest"] by auto
    then have "card (nsw_ids g - spec_visited st1) < card (nsw_ids g - spec_visited st)"
      by (intro psubset_card_mono) (simp_all add: finite_nsw_ids)
    then show ?thesis by simp
  qed
qed

declare spec_loop.simps [simp del]

definition spec_SearchLayer ::
  "Vector list \<Rightarrow> NSW \<Rightarrow> Vector \<Rightarrow> nat \<Rightarrow> nat list \<Rightarrow> error + nat list" where
  "spec_SearchLayer vertices g q ef entry_points =
     ebind (spec_seed vertices g q entry_points
              \<lparr> spec_candidates = [], spec_results = [], spec_visited = {} \<rparr>) (\<lambda>st0.
     ebind (spec_loop vertices g q ef st0) (\<lambda>st.
       Inr (rev (map snd (spec_results st)))))"

subsection \<open>The layer search as a breadth-first search\<close>














section \<open>Properties of the code\<close>

subsection \<open>Rounding\<close>

text \<open>
  The rounded value of \<open>x\<close> lies between any two doubles that \<open>x\<close> lies between
  (\<open>round_double_between\<close>); a double is its own rounded value (\<open>round_double_exact\<close>);
  what is \<open>2^1024\<close> or more is rounded to infinity (\<open>round_double_overflow\<close>).
\<close>

lemma round_half_even_ge: "of_int A \<le> y \<Longrightarrow> A \<le> round_half_even y"
proof -
  assume "of_int A \<le> y"
  then have "A \<le> \<lfloor>y\<rfloor>" by (simp add: le_floor_iff)
  then show ?thesis by (simp add: round_half_even_def)
qed

lemma round_half_even_le: "y \<le> of_int B \<Longrightarrow> round_half_even y \<le> B"
proof (cases "y = of_int \<lfloor>y\<rfloor>")
  case True
  assume "y \<le> of_int B"
  then have "\<lfloor>y\<rfloor> \<le> B" by (metis floor_mono floor_of_int)
  moreover have "y - of_int \<lfloor>y\<rfloor> < 1 / 2" using True by simp
  ultimately show ?thesis by (simp add: round_half_even_def)
next
  case False
  assume b: "y \<le> of_int B"
  have "of_int \<lfloor>y\<rfloor> < y" using False of_int_floor_le[of y] by linarith
  then have "of_int \<lfloor>y\<rfloor> < (of_int B :: real)" using b by linarith
  then have "\<lfloor>y\<rfloor> < B" by simp
  then show ?thesis by (simp add: round_half_even_def)
qed

lemma round_half_even_of_int [simp]: "round_half_even (of_int A) = A"
  by (simp add: round_half_even_def)

lemma round_half_even_minus: "round_half_even (- y) = - round_half_even y"
proof (cases "y = of_int \<lfloor>y\<rfloor>")
  case True
  then obtain A where "y = of_int A" by blast
  then have "- y = of_int (- A)" by simp
  then show ?thesis unfolding \<open>y = of_int A\<close> by (simp only: round_half_even_of_int)
next
  case False
  then have ni: "y \<notin> \<int>" by (auto elim!: Ints_cases)
  have f: "\<lfloor>- y\<rfloor> = - \<lfloor>y\<rfloor> - 1"
    using ni False by (simp add: floor_minus ceiling_altdef)
  have fr: "- y - of_int \<lfloor>- y\<rfloor> = 1 - (y - of_int \<lfloor>y\<rfloor>)"
    by (simp add: f)
  have e: "even \<lfloor>- y\<rfloor> \<longleftrightarrow> odd \<lfloor>y\<rfloor>"
    by (simp add: f)
  show ?thesis
    unfolding round_half_even_def fr e unfolding f by auto
qed

lemma pow2_pos [simp]: "0 < (2::real) powr a"
  by simp

lemma pow2_mult: "k \<le> j \<Longrightarrow> (2::real) powr of_int j = of_int (2 ^ nat (j - k)) * 2 powr of_int k"
proof -
  assume "k \<le> j"
  then have "of_int j = real (nat (j - k)) + (of_int k :: real)" by simp
  then have "(2::real) powr of_int j = 2 powr real (nat (j - k)) * 2 powr of_int k"
    by (simp only: powr_add)
  then show ?thesis by (simp add: powr_realpow)
qed

lemma binade:
  assumes "x \<noteq> 0"
  shows "2 powr of_int \<lfloor>log 2 \<bar>x\<bar>\<rfloor> \<le> \<bar>x\<bar>" "\<bar>x\<bar> < 2 powr (of_int \<lfloor>log 2 \<bar>x\<bar>\<rfloor> + 1)"
proof -
  have p: "0 < \<bar>x\<bar>" using assms by simp
  have "of_int \<lfloor>log 2 \<bar>x\<bar>\<rfloor> \<le> log 2 \<bar>x\<bar>" by simp
  then have "2 powr of_int \<lfloor>log 2 \<bar>x\<bar>\<rfloor> \<le> 2 powr log 2 \<bar>x\<bar>"
    by (simp only: powr_le_cancel_iff)
  then show "2 powr of_int \<lfloor>log 2 \<bar>x\<bar>\<rfloor> \<le> \<bar>x\<bar>" using p by simp
  have "log 2 \<bar>x\<bar> < of_int \<lfloor>log 2 \<bar>x\<bar>\<rfloor> + 1" by linarith
  then have "2 powr log 2 \<bar>x\<bar> < 2 powr (of_int \<lfloor>log 2 \<bar>x\<bar>\<rfloor> + 1)"
    by (simp only: powr_less_cancel_iff)
  then show "\<bar>x\<bar> < 2 powr (of_int \<lfloor>log 2 \<bar>x\<bar>\<rfloor> + 1)" using p by simp
qed

lemma grid:
  assumes a: "(a::real) = of_int m * 2 powr of_int j" "\<bar>m\<bar> < 2 ^ 53" "- 1074 \<le> j"
    and ge: "2 powr of_int e \<le> a"
    and k: "k = max (e - 52) (- 1074)"
  shows "\<exists>A::int. a = of_int A * 2 powr of_int k"
proof -
  have mpos: "0 < m"
  proof (rule ccontr)
    assume "\<not> 0 < m"
    then have "(of_int m :: real) \<le> 0" by simp
    then have "a \<le> 0" unfolding a(1) by (simp add: mult_le_0_iff)
    moreover have "0 < a" using ge pow2_pos[of "of_int e"] by linarith
    ultimately show False by simp
  qed
  have "(of_int m :: real) < 2 ^ 53" using a(2) mpos by (metis abs_of_pos of_int_less_numeral_power_cancel_iff)
  then have "of_int m * (2::real) powr of_int j < 2 ^ 53 * 2 powr of_int j"
    by (intro mult_strict_right_mono) simp_all
  also have "\<dots> = 2 powr (53 + of_int j)"
    by (simp add: powr_add powr_realpow[symmetric])
  finally have "of_int m * (2::real) powr of_int j < 2 powr (53 + of_int j)" .
  then have "2 powr of_int e < (2::real) powr (53 + of_int j)" using ge a(1) by linarith
  then have "(of_int e :: real) < 53 + of_int j" by (simp only: powr_less_cancel_iff)
  then have "e - 52 \<le> j" by linarith
  then have "k \<le> j" using k a(3) by simp
  from pow2_mult[OF this] have "a = of_int (m * 2 ^ nat (j - k)) * 2 powr of_int k"
    unfolding a(1) by simp
  then show ?thesis by blast
qed

lemma is_double_bound: "is_double b \<Longrightarrow> \<bar>b\<bar> < 2 ^ 1024"
proof -
  assume "is_double b"
  then obtain n e where b: "b = of_int n * 2 powr of_int e" "\<bar>n\<bar> < 2 ^ 53" "e \<le> 971"
    by (auto simp: is_double_def)
  have n: "\<bar>real_of_int n\<bar> < 2 ^ 53"
    using b(2) by (metis of_int_abs of_int_less_numeral_power_cancel_iff)
  have "\<bar>b\<bar> = \<bar>real_of_int n\<bar> * 2 powr of_int e" unfolding b(1) by (simp add: abs_mult)
  also have "\<dots> < 2 ^ 53 * 2 powr of_int e"
    using n by (intro mult_strict_right_mono) simp_all
  also have "\<dots> \<le> 2 ^ 53 * 2 powr 971"
  proof -
    have "(2::real) powr of_int e \<le> 2 powr 971"
      using b(3) by (intro powr_mono) simp_all
    then show ?thesis by (intro mult_left_mono) simp_all
  qed
  also have "\<dots> = 2 ^ 1024"
    by simp
  finally show ?thesis .
qed

lemma is_double_pos_ge:
  assumes "is_double a" "0 < a"
  shows "2 powr (- 1074) \<le> a"
proof -
  from assms(1) obtain n e where a: "a = of_int n * 2 powr of_int e" "- 1074 \<le> e"
    by (auto simp: is_double_def)
  have "0 < n"
  proof (rule ccontr)
    assume "\<not> 0 < n"
    then have "(of_int n :: real) \<le> 0" by simp
    then have "a \<le> 0" unfolding a(1) by (simp add: mult_le_0_iff)
    with assms(2) show False by simp
  qed
  then have "1 \<le> (of_int n :: real)" by simp
  then have "1 * (2::real) powr of_int e \<le> of_int n * 2 powr of_int e"
    by (intro mult_right_mono) simp_all
  moreover have "(2::real) powr (- 1074) \<le> 2 powr of_int e"
    using a(2) by simp
  ultimately show ?thesis unfolding a(1) by linarith
qed

lemma round_double_between:
  assumes a: "is_double a" and b: "is_double b" and pos: "0 < a" and ax: "a \<le> x" and xb: "x \<le> b"
  shows "\<exists>r. round_double x = Fin r \<and> a \<le> r \<and> r \<le> b"
proof -
  have xpos: "0 < x" using pos ax by simp
  define e where "e = \<lfloor>log 2 \<bar>x\<bar>\<rfloor>"
  define k where "k = ulp_exponent x"
  define ulp where "ulp = (2::real) powr of_int k"
  define r where "r = of_int (round_half_even (x / ulp)) * ulp"
  have k: "k = max (e - 52) (- 1074)" by (simp add: k_def ulp_exponent_def e_def)
  have up: "0 < ulp" by (simp add: ulp_def)
  from binade[of x] xpos have lo: "2 powr of_int e \<le> x" by (simp add: e_def)
  from b obtain mb jb where b': "b = of_int mb * 2 powr of_int jb" "\<bar>mb\<bar> < 2 ^ 53" "- 1074 \<le> jb"
    by (auto simp: is_double_def)
  have "2 powr of_int e \<le> b" using lo xb by simp
  from grid[OF b' this k] obtain B :: int where B: "b = of_int B * ulp" by (auto simp: ulp_def)
  have "x / ulp \<le> of_int B" using xb up by (simp add: B field_simps)
  then have "round_half_even (x / ulp) \<le> B" by (rule round_half_even_le)
  then have rb: "r \<le> b" unfolding r_def B using up by (simp add: mult_right_mono)
  have ra: "a \<le> r"
  proof (cases "2 powr of_int e \<le> a")
    case True
    from a obtain ma ja where a': "a = of_int ma * 2 powr of_int ja" "\<bar>ma\<bar> < 2 ^ 53" "- 1074 \<le> ja"
      by (auto simp: is_double_def)
    from grid[OF a' True k] obtain A :: int where A: "a = of_int A * ulp" by (auto simp: ulp_def)
    have "of_int A \<le> x / ulp" using ax up by (simp add: A field_simps)
    then have "A \<le> round_half_even (x / ulp)" by (rule round_half_even_ge)
    then show ?thesis unfolding r_def A using up by (simp add: mult_right_mono)
  next
    case False
    then have ae: "a < 2 powr of_int e" by simp
    have "(2::real) powr (- 1074) < 2 powr of_int e"
      using is_double_pos_ge[OF a pos] ae by linarith
    then have "(- 1074 :: real) < of_int e" by (simp only: powr_less_cancel_iff)
    then have "- 1074 \<le> e" by linarith
    then have "k \<le> e" using k by simp
    from pow2_mult[OF this] have E: "2 powr of_int e = of_int (2 ^ nat (e - k)) * ulp"
      by (simp add: ulp_def)
    have "of_int (2 ^ nat (e - k)) \<le> x / ulp" using lo up unfolding E by (simp add: field_simps)
    then have "2 ^ nat (e - k) \<le> round_half_even (x / ulp)" by (rule round_half_even_ge)
    then have "of_int (2 ^ nat (e - k)) * ulp \<le> r"
      unfolding r_def using up by (intro mult_right_mono) simp_all
    then show ?thesis using E ae by linarith
  qed
  have "\<bar>r\<bar> < 2 ^ 1024" using is_double_bound[OF b] ra rb pos by simp
  then have "round_double x = Fin r"
    using xpos by (simp add: round_double_def Let_def r_def ulp_def k_def)
  with ra rb show ?thesis by blast
qed

lemma round_double_minus: "round_double (- x) = dneg (round_double x)"
proof (cases "x = 0")
  case True
  then show ?thesis by (simp add: round_double_def)
next
  case False
  have u: "ulp_exponent (- x) = ulp_exponent x" by (simp add: ulp_exponent_def)
  show ?thesis
    using False
    by (simp add: round_double_def u Let_def round_half_even_minus inf_of_sign_def)
qed

lemma is_double_minus: "is_double (- x) \<longleftrightarrow> is_double x"
proof -
  have "is_double (- y)" if "is_double y" for y
  proof -
    from that obtain n e where "y = of_int n * 2 powr of_int e" "\<bar>n\<bar> < 2 ^ 53" "- 1074 \<le> e" "e \<le> 971"
      by (auto simp: is_double_def)
    then have "- y = of_int (- n) * 2 powr of_int e" "\<bar>- n\<bar> < 2 ^ 53" by simp_all
    with \<open>- 1074 \<le> e\<close> \<open>e \<le> 971\<close> show ?thesis unfolding is_double_def by blast
  qed
  from this[of x] this[of "- x"] show ?thesis by auto
qed

lemma is_double_0 [simp]: "is_double 0"
  unfolding is_double_def by (rule exI[of _ 0], rule exI[of _ 0]) simp

lemma round_double_exact: "is_double x \<Longrightarrow> round_double x = Fin x"
proof -
  assume d: "is_double x"
  consider "x = 0" | "0 < x" | "x < 0" by linarith
  then show ?thesis
  proof cases
    case 1
    then show ?thesis by (simp add: round_double_def)
  next
    case 2
    from round_double_between[OF d d 2, of x] show ?thesis by auto
  next
    case 3
    then have "0 < - x" by simp
    moreover have "is_double (- x)" using d by (simp add: is_double_minus)
    ultimately have "round_double (- x) = Fin (- x)"
      using round_double_between[of "- x" "- x" "- x"] by auto
    then show ?thesis
      by (cases "round_double x") (simp_all add: round_double_minus)
  qed
qed

lemma round_double_between_neg:
  assumes "is_double a" "is_double b" "b < 0" "a \<le> x" "x \<le> b"
  shows "\<exists>r. round_double x = Fin r \<and> a \<le> r \<and> r \<le> b"
proof -
  from round_double_between[of "- b" "- a" "- x"] assms
  obtain r where "round_double (- x) = Fin r" "- b \<le> r" "r \<le> - a"
    by (auto simp: is_double_minus)
  then show ?thesis
    by (cases "round_double x") (auto simp: round_double_minus)
qed

lemma is_double_of_int: "\<bar>n\<bar> < 2 ^ 53 \<Longrightarrow> is_double (of_int n)"
  unfolding is_double_def by (rule exI[of _ n], rule exI[of _ 0]) simp

lemma is_double_numeral [simp]: "(numeral w :: int) < 2 ^ 53 \<Longrightarrow> is_double (numeral w)"
  using is_double_of_int[of "numeral w"] by simp

lemma is_double_neg_numeral [simp]: "(numeral w :: int) < 2 ^ 53 \<Longrightarrow> is_double (- numeral w)"
  using is_double_numeral[of w] by (simp only: is_double_minus)

lemma is_double_1 [simp]: "is_double 1"
  using is_double_of_int[of 1] by simp

lemma is_double_of_nat: "n < 2 ^ 53 \<Longrightarrow> is_double (of_nat n)"
  using is_double_of_int[of "int n"] by simp

lemma is_double_dyadic:
  assumes "\<bar>n\<bar> < 2 ^ 53" "k \<le> 1074"
  shows "is_double (of_int n / 2 ^ k)"
proof -
  have "(2::real) powr of_int (- int k) = 1 / 2 ^ k"
    by (simp add: powr_minus powr_realpow divide_simps)
  then have "real_of_int n / 2 ^ k = of_int n * 2 powr of_int (- int k)" by simp
  moreover have "- 1074 \<le> - int k" "- int k \<le> 971" using assms(2) by simp_all
  ultimately show ?thesis unfolding is_double_def using assms(1) by blast
qed

lemma round_double_overflow:
  assumes "2 ^ 1024 \<le> x"
  shows "round_double x = PInf"
proof -
  have xpos: "0 < x" using assms by (smt (verit) zero_less_power)
  define e where "e = \<lfloor>log 2 \<bar>x\<bar>\<rfloor>"
  define k where "k = ulp_exponent x"
  define ulp where "ulp = (2::real) powr of_int k"
  define r where "r = of_int (round_half_even (x / ulp)) * ulp"
  have up: "0 < ulp" by (simp add: ulp_def)
  from binade[of x] xpos have lo: "2 powr of_int e \<le> x" and hi: "x < 2 powr (of_int e + 1)"
    by (simp_all add: e_def)
  have "(2::real) powr 1024 = 2 ^ 1024" using powr_realpow[of 2 1024] by simp
  then have "(2::real) powr 1024 < 2 powr (of_int e + 1)" using assms hi by simp
  then have "(1024::real) < of_int e + 1" by (simp only: powr_less_cancel_iff)
  then have e: "1024 \<le> e" by linarith
  then have k: "k = e - 52" by (simp add: k_def ulp_exponent_def e_def)
  then have "k \<le> e" by simp
  from pow2_mult[OF this] have E: "2 powr of_int e = of_int (2 ^ nat (e - k)) * ulp"
    by (simp add: ulp_def)
  have "of_int (2 ^ nat (e - k)) \<le> x / ulp" using lo up unfolding E by (simp add: field_simps)
  then have "2 ^ nat (e - k) \<le> round_half_even (x / ulp)" by (rule round_half_even_ge)
  then have "of_int (2 ^ nat (e - k)) * ulp \<le> r"
    unfolding r_def using up by (intro mult_right_mono) simp_all
  then have "2 powr of_int e \<le> r" using E by simp
  moreover have "(2::real) powr 1024 \<le> 2 powr of_int e" using e by (intro powr_mono) simp_all
  ultimately have "2 ^ 1024 \<le> r" using \<open>(2::real) powr 1024 = 2 ^ 1024\<close> by simp
  then have "2 ^ 1024 \<le> \<bar>r\<bar>" by simp
  then show ?thesis
    using xpos by (simp add: round_double_def Let_def r_def ulp_def k_def inf_of_sign_def)
qed

lemma round_double_0 [simp]: "round_double 0 = Fin 0"
  by (simp add: round_double_def)

lemma round_double_numeral [simp]:
  "(numeral w :: int) < 2 ^ 53 \<Longrightarrow> round_double (numeral w) = Fin (numeral w)"
  by (intro round_double_exact is_double_numeral)

lemma round_double_neg_numeral [simp]:
  "(numeral w :: int) < 2 ^ 53 \<Longrightarrow> round_double (- numeral w) = Fin (- numeral w)"
  by (intro round_double_exact is_double_neg_numeral)

lemma round_double_1 [simp]: "round_double 1 = Fin 1"
  by (intro round_double_exact is_double_1)

lemma is_double_neg_1 [simp]: "is_double (- 1)"
  using is_double_1 by (simp only: is_double_minus)

lemma round_double_neg_1 [simp]: "round_double (- 1) = Fin (- 1)"
  by (intro round_double_exact is_double_neg_1)

lemma is_double_abs: "is_double x \<Longrightarrow> is_double \<bar>x\<bar>"
  by (cases "0 \<le> x") (simp_all add: abs_if is_double_minus)

lemma l2_1d:
  assumes "is_double (a - b)" and "is_double ((a - b)\<^sup>2)"
  shows "ComputeDistance [Fin a] [Fin b] L2Dist = Inr (Fin \<bar>a - b\<bar>)"
proof -
  have 1: "round_double (a - b) = Fin (a - b)"
    using assms(1) by (rule round_double_exact)
  have 2: "round_double ((a - b) * (a - b)) = Fin ((a - b)\<^sup>2)"
    using round_double_exact[OF assms(2)] by (simp add: power2_eq_square)
  have 3: "round_double ((a - b)\<^sup>2) = Fin ((a - b)\<^sup>2)"
    using assms(2) by (rule round_double_exact)
  have 4: "round_double \<bar>a - b\<bar> = Fin \<bar>a - b\<bar>"
    using assms(1) by (intro round_double_exact is_double_abs)
  show ?thesis
    by (simp add: ComputeDistance_def l2_step_def dsub_def dpow2_def 1 2 3 4)
qed

lemma l2_1d_between:
  assumes lo: "real lo \<le> \<bar>a - b\<bar>" and hi: "\<bar>a - b\<bar> \<le> real hi" and "0 < lo" and "hi \<le> 1000"
  shows "\<exists>d. ComputeDistance [Fin a] [Fin b] L2Dist = Inr (Fin d) \<and> real lo \<le> d \<and> d \<le> real hi"
proof -
  have lh: "lo \<le> hi" using lo hi by linarith
  have dl: "is_double (real lo)" "is_double (real hi)" "is_double (real (lo * lo))" "is_double (real (hi * hi))"
  proof -
    have "hi * hi \<le> 1000 * 1000" using assms(4) by (intro mult_mono) simp_all
    then have "hi * hi < 2 ^ 53" by simp
    moreover have "lo * lo \<le> hi * hi" using lh by (intro mult_mono) simp_all
    moreover have "hi \<le> hi * hi" "lo \<le> lo * lo" by (cases hi; simp)+ 
    ultimately have "lo < 2 ^ 53" "hi < 2 ^ 53" "lo * lo < 2 ^ 53" "hi * hi < 2 ^ 53"
      using lh by linarith+
    then show "is_double (real lo)" "is_double (real hi)" "is_double (real (lo * lo))"
      "is_double (real (hi * hi))"
      by (simp_all only: is_double_of_nat)
  qed
  have lo0: "0 < real lo" using assms(3) by simp
  obtain t where t: "round_double (a - b) = Fin t" "real lo \<le> \<bar>t\<bar>" "\<bar>t\<bar> \<le> real hi"
  proof (cases "0 \<le> a - b")
    case True
    with lo hi have "real lo \<le> a - b" "a - b \<le> real hi" by simp_all
    from round_double_between[OF dl(1,2) lo0 this] that show ?thesis by auto
  next
    case False
    with lo hi have "- real hi \<le> a - b" "a - b \<le> - real lo" by simp_all
    moreover have "is_double (- real hi)" "is_double (- real lo)" "- real lo < 0"
      using dl lo0 by (simp_all add: is_double_minus)
    ultimately obtain r where "round_double (a - b) = Fin r" "- real hi \<le> r" "r \<le> - real lo"
      using round_double_between_neg[of "- real hi" "- real lo" "a - b"] by blast
    with that lo0 show ?thesis by auto
  qed
  have sq: "real (lo * lo) \<le> t * t" "t * t \<le> real (hi * hi)"
  proof -
    have "real lo * real lo \<le> \<bar>t\<bar> * \<bar>t\<bar>" using t(2) lo0 by (intro mult_mono) simp_all
    then show "real (lo * lo) \<le> t * t" by (simp add: abs_mult_self_eq)
    have "\<bar>t\<bar> * \<bar>t\<bar> \<le> real hi * real hi" using t(3) by (intro mult_mono) simp_all
    then show "t * t \<le> real (hi * hi)" by (simp add: abs_mult_self_eq)
  qed
  have ll0: "0 < real (lo * lo)" using assms(3) by simp
  from round_double_between[OF dl(3,4) ll0 sq]
  obtain s where s: "round_double (t * t) = Fin s" "real (lo * lo) \<le> s" "s \<le> real (hi * hi)" by blast
  from round_double_between[OF dl(3,4) ll0 s(2,3)]
  obtain s' where s': "round_double s = Fin s'" "real (lo * lo) \<le> s'" "s' \<le> real (hi * hi)" by blast
  have rt: "real lo \<le> sqrt s'" "sqrt s' \<le> real hi"
  proof -
    have "sqrt (real (lo * lo)) \<le> sqrt s'" using s'(2) by (simp only: real_sqrt_le_iff)
    then show "real lo \<le> sqrt s'" by (simp add: real_sqrt_mult)
    have "sqrt s' \<le> sqrt (real (hi * hi))" using s'(3) by (simp only: real_sqrt_le_iff)
    then show "sqrt s' \<le> real hi" by (simp add: real_sqrt_mult)
  qed
  from round_double_between[OF dl(1,2) lo0 rt]
  obtain d where d: "round_double (sqrt s') = Fin d" "real lo \<le> d" "d \<le> real hi" by blast
  have "0 \<le> s'" using s'(2) ll0 by linarith
  then have "ComputeDistance [Fin a] [Fin b] L2Dist = Inr (Fin d)"
    by (simp add: ComputeDistance_def l2_step_def dsub_def dpow2_def t(1) s(1) s'(1) d(1))
  with d show ?thesis by blast
qed

subsection \<open>Helper facts\<close>

lemmas double_simps = dsub_def dpow2_def double_of_int_def double_of_nat_def truncate_real_def
  INT_MIN_def INT_MAX_def size_t_of_int_def inf_of_sign_def

lemmas dist_simps = ComputeDistance_def l2_step_def ip_step_def cos_step_def

subsection \<open>The cosine distance\<close>

lemma cos_fold:
  "length u = length v \<Longrightarrow>
   foldl cos_step (a, b, c) (zip u v) =
     (foldl dadd a (map2 dmul u v), foldl dadd b (map dpow2 u), foldl dadd c (map dpow2 v))"
proof (induction u v arbitrary: a b c rule: list_induct2)
  case Nil
  then show ?case by simp
next
  case (Cons x xs y ys)
  have step: "cos_step (a, b, c) (x, y) = (dadd a (dmul x y), dadd b (dpow2 x), dadd c (dpow2 y))"
    by (simp add: cos_step_def)
  show ?case
    by (simp add: step Cons.IH)
qed

lemma zero_or_nan_dmul: "zero_or_nan (dmul (Fin 0) y)" "zero_or_nan (dmul y (Fin 0))"
  by (cases y; simp add: zero_or_nan_def)+

lemma zero_or_nan_dadd: "zero_or_nan x \<Longrightarrow> zero_or_nan y \<Longrightarrow> zero_or_nan (dadd x y)"
  by (auto simp: zero_or_nan_def)

lemma zero_or_nan_foldl:
  "zero_or_nan acc \<Longrightarrow> \<forall>x \<in> set xs. zero_or_nan x \<Longrightarrow> zero_or_nan (foldl dadd acc xs)"
  by (induction xs arbitrary: acc) (simp_all add: zero_or_nan_dadd)

lemma foldl_dadd_zeros: "\<forall>x \<in> set xs. x = Fin 0 \<Longrightarrow> foldl dadd (Fin 0) xs = Fin 0"
  by (induction xs) simp_all

lemma cosine_of_zero_or_nan:
  assumes "zero_or_nan d" and "l = Fin 0 \<or> r = Fin 0"
  shows "dsub (Fin 1) (ddiv d (dsqrt (dmul l r))) = NaN"
proof -
  have "zero_or_nan (dmul l r)"
    using assms(2) zero_or_nan_dmul by auto
  then have "zero_or_nan (dsqrt (dmul l r))"
    by (auto simp: zero_or_nan_def)
  with assms(1) have "ddiv d (dsqrt (dmul l r)) = NaN"
    by (auto simp: zero_or_nan_def)
  then show ?thesis by (simp add: dsub_def)
qed

text \<open>
  C7, as the code has it. For vectors of equal length, \<^verbatim>\<open>ComputeDistance\<close> with
  \<^verbatim>\<open>CosineSimilarity\<close> is \<open>1 - d / sqrt (l * r)\<close> in double arithmetic, where \<open>d\<close>,
  \<open>l\<close> and \<open>r\<close> are the sums of the products \<open>u\<^sub>i v\<^sub>i\<close>, of the squares \<open>u\<^sub>i\<^sup>2\<close> and of
  the squares \<open>v\<^sub>i\<^sup>2\<close>, each accumulated in a double: every product, sum, square root and
  quotient is rounded and may overflow. The code has no case for a zero norm: when every
  component of one of the vectors is zero, the quotient is \<open>0 / 0\<close> and the result is not a
  number.
\<close>

theorem ComputeDistance_Cosine:
  assumes "length u = length v"
  shows "ComputeDistance u v CosineSimilarity =
           Inr (dsub (Fin 1)
                  (ddiv (dsum (map2 dmul u v))
                     (dsqrt (dmul (dsum (map dpow2 u)) (dsum (map dpow2 v)))))) \<and>
         ((\<forall>x \<in> set u. x = Fin 0) \<or> (\<forall>y \<in> set v. y = Fin 0) \<longrightarrow>
            ComputeDistance u v CosineSimilarity = Inr NaN)"
proof -
  have f: "ComputeDistance u v CosineSimilarity =
           Inr (dsub (Fin 1)
                  (ddiv (dsum (map2 dmul u v))
                     (dsqrt (dmul (dsum (map dpow2 u)) (dsum (map dpow2 v))))))"
    using assms by (simp add: ComputeDistance_def cos_fold dsum_def)
  have "dsub (Fin 1)
          (ddiv (dsum (map2 dmul u v))
             (dsqrt (dmul (dsum (map dpow2 u)) (dsum (map dpow2 v))))) = NaN"
    if z: "(\<forall>x \<in> set u. x = Fin 0) \<or> (\<forall>y \<in> set v. y = Fin 0)"
  proof -
    have "\<forall>p \<in> set (map2 dmul u v). zero_or_nan p"
    proof
      fix p assume "p \<in> set (map2 dmul u v)"
      then obtain x y where "(x, y) \<in> set (zip u v)" "p = dmul x y" by auto
      then have "x \<in> set u" "y \<in> set v" "p = dmul x y"
        by (auto dest: set_zip_leftD set_zip_rightD)
      with z zero_or_nan_dmul show "zero_or_nan p" by auto
    qed
    then have d: "zero_or_nan (dsum (map2 dmul u v))"
      unfolding dsum_def by (intro zero_or_nan_foldl) (simp_all add: zero_or_nan_def)
    have sq: "dsum (map dpow2 w) = Fin 0" if "\<forall>x \<in> set w. x = Fin 0" for w
    proof -
      from that have "\<forall>p \<in> set (map dpow2 w). p = Fin 0" by (auto simp: dpow2_def)
      then show ?thesis unfolding dsum_def by (rule foldl_dadd_zeros)
    qed
    from z sq have "dsum (map dpow2 u) = Fin 0 \<or> dsum (map dpow2 v) = Fin 0"
      by blast
    with d show ?thesis by (rule cosine_of_zero_or_nan)
  qed
  with f show ?thesis by simp
qed

theorem ComputeDistance_Cosine_witness:
  "length [Fin 0, Fin 0] = length [Fin 3, Fin 4] \<and> set [Fin 0, Fin 0] \<subseteq> {Fin 0} \<and>
   ComputeDistance [Fin 0, Fin 0] [Fin 3, Fin 4] CosineSimilarity = Inr NaN \<and>
   ComputeDistance [Fin 2, Fin 0] [Fin 2, Fin 0] CosineSimilarity = Inr (Fin 0)"
proof -
  have len: "length [Fin 0, Fin 0] = length [Fin 3, Fin 4]" by simp
  have z: "(\<forall>x \<in> set [Fin 0, Fin 0]. x = Fin 0) \<or> (\<forall>y \<in> set [Fin 3, Fin 4]. y = Fin 0)" by simp
  from ComputeDistance_Cosine[OF len] z
  have a: "ComputeDistance [Fin 0, Fin 0] [Fin 3, Fin 4] CosineSimilarity = Inr NaN" by blast
  have "sqrt 16 = 4" using real_sqrt_abs[of 4] by simp
  then have "dsub (Fin 1)
          (ddiv (dsum (map2 dmul [Fin 2, Fin 0] [Fin 2, Fin 0]))
             (dsqrt (dmul (dsum (map dpow2 [Fin 2, Fin 0])) (dsum (map dpow2 [Fin 2, Fin 0]))))) = Fin 0"
    by (simp add: dsum_def dpow2_def dsub_def)
  with ComputeDistance_Cosine[of "[Fin 2, Fin 0]" "[Fin 2, Fin 0]"]
  have b: "ComputeDistance [Fin 2, Fin 0] [Fin 2, Fin 0] CosineSimilarity = Inr (Fin 0)" by simp
  from a b show ?thesis by simp
qed

text \<open>
  C7, as the claim states it, fails where an operand has norm zero: for \<open>u = [0, 0]\<close> and
  \<open>v = [1, 0]\<close> the code divides \<open>0\<close> by \<open>sqrt (0 * 1) = 0\<close>, and the result is not a
  number, not \<open>1.0\<close>.
\<close>

theorem ComputeDistance_Cosine_zero_norm:
  "ComputeDistance [Fin 0, Fin 0] [Fin 1, Fin 0] CosineSimilarity = Inr NaN \<and>
   ComputeDistance [Fin 0, Fin 0] [Fin 1, Fin 0] CosineSimilarity \<noteq> Inr (Fin 1)"
  by (simp add: ComputeDistance_def cos_step_def dpow2_def dsub_def)

text \<open>
  The sums are doubles: for \<open>u = v = [2^600]\<close> the squares overflow, the three sums are
  infinite, and the distance of the vector to itself is \<open>\<infinity> / \<infinity>\<close>, not a number.
\<close>

lemma ComputeDistance_Cosine_overflow:
  "ComputeDistance [Fin (2 ^ 600)] [Fin (2 ^ 600)] CosineSimilarity = Inr NaN"
proof -
  have "round_double (2 ^ 600 * 2 ^ 600) = PInf"
    by (rule round_double_overflow) simp
  then show ?thesis
    by (simp add: ComputeDistance_def cos_step_def dpow2_def dsub_def del: power_mult_numeral)
qed

subsection \<open>IVFFlat: a complete run of the build\<close>

lemma double_to_int_small: "0 \<le> x \<Longrightarrow> x \<le> 1000 \<Longrightarrow> double_to_int (Fin x) = Inr \<lfloor>x\<rfloor>"
proof -
  assume a: "0 \<le> x" "x \<le> 1000"
  then have "0 \<le> \<lfloor>x\<rfloor>" "\<lfloor>x\<rfloor> \<le> 1000" by (simp_all add: floor_le_iff le_floor_iff)
  then show ?thesis using a by (simp add: truncate_real_def INT_MIN_def INT_MAX_def)
qed

lemma FindCentroid_p10:
  assumes "11 \<le> c" "c \<le> 21"
  shows "FindCentroid [Fin 10] [[Fin 10], [Fin c]] L2Dist = Inr 1"
proof -
  have d0: "ComputeDistance [Fin 10] [Fin 10] L2Dist = Inr (Fin 0)"
    using l2_1d[of 10 10] by simp
  from l2_1d_between[of 1 10 c 11] assms obtain d where
    d: "ComputeDistance [Fin 10] [Fin c] L2Dist = Inr (Fin d)" "1 \<le> d" "d \<le> 11"
    by auto
  have "double_to_int (Fin d) = Inr \<lfloor>d\<rfloor>"
    using d by (intro double_to_int_small) auto
  then show ?thesis
    using d by (simp add: FindCentroid_def d0 double_of_int_def size_t_of_int_def)
qed

lemma FindCentroid_p11:
  assumes "21 \<le> c" "c \<le> 31"
  shows "FindCentroid [Fin 11] [[Fin 10], [Fin c]] L2Dist = Inr 1"
proof -
  have d0: "ComputeDistance [Fin 11] [Fin 10] L2Dist = Inr (Fin 1)"
    using l2_1d[of 11 10] by simp
  from l2_1d_between[of 10 11 c 20] assms obtain d where
    d: "ComputeDistance [Fin 11] [Fin c] L2Dist = Inr (Fin d)" "10 \<le> d" "d \<le> 20"
    by auto
  have "double_to_int (Fin d) = Inr \<lfloor>d\<rfloor>"
    using d by (intro double_to_int_small) auto
  moreover have "double_to_int (Fin 1) = Inr 1"
    using double_to_int_small[of 1] by simp
  ultimately show ?thesis
    using d by (simp add: FindCentroid_def d0 double_of_int_def size_t_of_int_def)
qed

lemma FindCentroids_step:
  assumes "11 \<le> c" "c \<le> 21"
  shows "FindCentroids ex_data [[Fin 10], [Fin c]] L2Dist = Inr [[Fin 10], [ex_refine c]]"
proof -
  have 1: "FindCentroid [Fin 10] [[Fin 10], [Fin c]] L2Dist = Inr 1"
    using assms by (rule FindCentroid_p10)
  have "is_double 21" "is_double 31" by simp_all
  from round_double_between[OF this, of "c + 10"] assms obtain c1 where
    c1: "round_double (c + 10) = Fin c1" "21 \<le> c1" "c1 \<le> 31"
    by auto
  have 2: "FindCentroid [Fin 11] [[Fin 10], [Fin c1]] L2Dist = Inr 1"
    using c1 by (intro FindCentroid_p11)
  have n2: "Suc (Suc 0) = 2" by simp
  show ?thesis
    by (simp add: FindCentroids_def ex_data_def 1 2 c1(1) VectorAdd_def FindCentroids_divide_def
        VectorScalarDiv_def ex_refine_def upt_rec n2)
qed

lemma kmeans_iterations_Suc:
  assumes "11 \<le> c" "c \<le> 21" "ex_refine c = Fin c'"
  shows "kmeans_iterations (Suc n) ex_data [[Fin 10], [Fin c]] =
           kmeans_iterations n ex_data [[Fin 10], [Fin c']]"
  by (simp add: FindCentroids_step[OF assms(1,2)] assms(3))

lemma kmeans_iterations_add:
  "kmeans_iterations (m + n) initial_data centroids =
     ebind (kmeans_iterations m initial_data centroids) (kmeans_iterations n initial_data)"
proof (induction m arbitrary: centroids)
  case 0
  then show ?case by simp
next
  case (Suc m)
  show ?case
    by (cases "FindCentroids initial_data centroids L2Dist") (simp_all add: Suc.IH)
qed

lemma pow2_le_48: "k \<le> 48 \<Longrightarrow> (2::int) ^ k \<le> 2 ^ 48"
  by (rule power_increasing) simp_all

lemma two_powr_1_minus: "(2::real) powr of_int (1 - int k) = 2 / 2 ^ k"
proof -
  have "(2::real) powr of_int (1 - int k) = 2 powr (1 - real k)" by simp
  also have "\<dots> = 2 powr 1 / 2 powr real k" by (rule powr_diff)
  also have "\<dots> = 2 / 2 ^ k" by (simp add: powr_realpow)
  finally show ?thesis .
qed

lemma ex_refine_exact:
  assumes "k \<le> 48"
  shows "ex_refine (21 - 10 / 2 ^ k) = Fin (21 - 10 / 2 ^ Suc k)"
proof -
  have p: "(1::int) \<le> 2 ^ k" by simp
  note q = pow2_le_48[OF assms]
  have q': "(2::int) ^ k \<le> 281474976710656" using q by simp
  have "\<bar>31 * 2 ^ k - 10 :: int\<bar> < 9007199254740992" using p q' by linarith
  then have n31: "\<bar>31 * 2 ^ k - 10 :: int\<bar> < 2 ^ 53" by simp
  have "\<bar>21 * 2 ^ k - 5 :: int\<bar> < 9007199254740992" using p q' by linarith
  then have n21: "\<bar>21 * 2 ^ k - 5 :: int\<bar> < 2 ^ 53" by simp
  have "is_double (of_int (31 * 2 ^ k - 10) / 2 ^ k)"
    using n31 assms by (intro is_double_dyadic) simp_all
  moreover have "of_int (31 * 2 ^ k - 10) / 2 ^ k = (21 - 10 / 2 ^ k + 10 :: real)"
    by (simp add: field_simps)
  ultimately have a1: "round_double (21 - 10 / 2 ^ k + 10) = Fin (21 - 10 / 2 ^ k + 10)"
    by (simp only: round_double_exact)
  have "is_double (of_int (21 * 2 ^ k - 5) * 2 powr of_int (1 - int k))"
    unfolding is_double_def using n21 assms
    by (intro exI[of _ "21 * 2 ^ k - 5"] exI[of _ "1 - int k"]) simp
  moreover have "of_int (21 * 2 ^ k - 5) * 2 powr of_int (1 - int k) = (21 - 10 / 2 ^ k + 10 + 11 :: real)"
    by (simp only: two_powr_1_minus) (simp add: field_simps)
  ultimately have a2: "round_double (21 - 10 / 2 ^ k + 10 + 11) = Fin (21 - 10 / 2 ^ k + 10 + 11)"
    by (simp only: round_double_exact)
  have "is_double (of_int (21 * 2 ^ k - 5) / 2 ^ k)"
    using n21 assms by (intro is_double_dyadic) simp_all
  moreover have "of_int (21 * 2 ^ k - 5) / 2 ^ k = ((21 - 10 / 2 ^ k + 10 + 11) / 2 :: real)"
    by (simp add: field_simps)
  ultimately have a3: "round_double ((21 - 10 / 2 ^ k + 10 + 11) / 2) = Fin ((21 - 10 / 2 ^ k + 10 + 11) / 2)"
    by (simp only: round_double_exact)
  have a4: "double_of_nat 2 = Fin 2"
    by (simp add: double_of_nat_def)
  have "ex_refine (21 - 10 / 2 ^ k) = Fin ((21 - 10 / 2 ^ k + 10 + 11) / 2)"
    by (simp only: ex_refine_def dadd.simps a1 a2 a4 ddiv.simps a3) simp
  then show ?thesis by (simp add: field_simps)
qed

lemma kmeans_iterations_exact:
  "k + n \<le> 49 \<Longrightarrow>
   kmeans_iterations n ex_data [[Fin 10], [Fin (21 - 10 / 2 ^ k)]] =
     Inr [[Fin 10], [Fin (21 - 10 / 2 ^ (k + n))]]"
proof (induction n arbitrary: k)
  case 0
  then show ?case by simp
next
  case (Suc n)
  have k: "k \<le> 48" using Suc.prems by simp
  have "(10::real) / 2 ^ k \<le> 10 / 1" by (intro divide_left_mono) simp_all
  then have b: "(11::real) \<le> 21 - 10 / 2 ^ k" "(21::real) - 10 / 2 ^ k \<le> 21" by simp_all
  have "kmeans_iterations (Suc n) ex_data [[Fin 10], [Fin (21 - 10 / 2 ^ k)]] =
          kmeans_iterations n ex_data [[Fin 10], [Fin (21 - 10 / 2 ^ Suc k)]]"
    using b ex_refine_exact[OF k] by (rule kmeans_iterations_Suc)
  also have "\<dots> = Inr [[Fin 10], [Fin (21 - 10 / 2 ^ (Suc k + n))]]"
    using Suc.prems by (intro Suc.IH) simp
  finally show ?case by simp
qed

lemma round_double_32_64:
  assumes "32 \<le> x" "x < 64"
  shows "round_double x = Fin (of_int (round_half_even (x * 2 ^ 47)) / 2 ^ 47)"
proof -
  have xpos: "0 < x" using assms by simp
  have "5 \<le> log 2 x" using xpos assms(1) by (simp add: le_log_iff)
  moreover have "log 2 x < 6" using xpos assms(2) by (simp add: log_less_iff)
  ultimately have "\<lfloor>log 2 \<bar>x\<bar>\<rfloor> = 5" using xpos by (intro floor_unique) simp_all
  then have u: "ulp_exponent x = - 47" by (simp add: ulp_exponent_def)
  have p: "(2::real) powr (- 47) = 1 / 2 ^ 47"
    by (simp add: powr_minus divide_simps)
  have "x * 2 ^ 47 \<le> of_int (64 * 2 ^ 47)" using assms(2) by simp
  then have hi: "round_half_even (x * 2 ^ 47) \<le> 64 * 2 ^ 47" by (rule round_half_even_le)
  have "of_int 0 \<le> x * 2 ^ 47" using xpos by simp
  then have lo: "0 \<le> round_half_even (x * 2 ^ 47)" by (rule round_half_even_ge)
  have "\<bar>real_of_int (round_half_even (x * 2 ^ 47)) / 2 ^ 47\<bar> \<le> 64"
    using hi lo by (simp add: divide_simps)
  then have "\<not> 2 ^ 1024 \<le> \<bar>real_of_int (round_half_even (x * 2 ^ 47)) / 2 ^ 47\<bar>"
    by simp
  then show ?thesis
    using xpos by (simp add: round_double_def u p Let_def)
qed

lemma ex_refine_49: "ex_refine (21 - 10 / 2 ^ 49) = Fin (21 - 1 / 2 ^ 47)"
proof -
  have "is_double (of_int (31 * 2 ^ 48 - 5) / 2 ^ 48)"
    by (intro is_double_dyadic) simp_all
  then have a1: "round_double (21 - 10 / 2 ^ 49 + 10) = Fin (31 - 5 / 2 ^ 48)"
    using round_double_exact[of "of_int (31 * 2 ^ 48 - 5) / 2 ^ 48"] by simp
  have "round_double (31 - 5 / 2 ^ 48 + 11) =
          Fin (of_int (round_half_even ((31 - 5 / 2 ^ 48 + 11) * 2 ^ 47)) / 2 ^ 47)"
    by (rule round_double_32_64) simp_all
  moreover have "round_half_even ((31 - 5 / 2 ^ 48 + 11) * 2 ^ 47) = 42 * 2 ^ 47 - 2"
    by (simp add: round_half_even_def)
  ultimately have a2: "round_double (31 - 5 / 2 ^ 48 + 11) = Fin (42 - 1 / 2 ^ 46)"
    by simp
  have "is_double (of_int (21 * 2 ^ 47 - 1) / 2 ^ 47)"
    by (intro is_double_dyadic) simp_all
  then have a3: "round_double ((42 - 1 / 2 ^ 46) / 2) = Fin (21 - 1 / 2 ^ 47)"
    using round_double_exact[of "of_int (21 * 2 ^ 47 - 1) / 2 ^ 47"] by simp
  have a4: "double_of_nat 2 = Fin 2"
    by (simp add: double_of_nat_def)
  show ?thesis
    by (simp only: ex_refine_def dadd.simps a1 a2 a4 ddiv.simps a3) simp
qed

lemma ex_refine_50: "ex_refine (21 - 1 / 2 ^ 47) = Fin (21 - 1 / 2 ^ 48)"
proof -
  have "is_double (of_int (31 * 2 ^ 47 - 1) / 2 ^ 47)"
    by (intro is_double_dyadic) simp_all
  then have a1: "round_double (21 - 1 / 2 ^ 47 + 10) = Fin (31 - 1 / 2 ^ 47)"
    using round_double_exact[of "of_int (31 * 2 ^ 47 - 1) / 2 ^ 47"] by simp
  have "is_double (of_int (42 * 2 ^ 47 - 1) / 2 ^ 47)"
    by (intro is_double_dyadic) simp_all
  then have a2: "round_double (31 - 1 / 2 ^ 47 + 11) = Fin (42 - 1 / 2 ^ 47)"
    using round_double_exact[of "of_int (42 * 2 ^ 47 - 1) / 2 ^ 47"] by simp
  have "is_double (of_int (21 * 2 ^ 48 - 1) / 2 ^ 48)"
    by (intro is_double_dyadic) simp_all
  then have a3: "round_double ((42 - 1 / 2 ^ 47) / 2) = Fin (21 - 1 / 2 ^ 48)"
    using round_double_exact[of "of_int (21 * 2 ^ 48 - 1) / 2 ^ 48"] by simp
  have a4: "double_of_nat 2 = Fin 2"
    by (simp add: double_of_nat_def)
  show ?thesis
    by (simp only: ex_refine_def dadd.simps a1 a2 a4 ddiv.simps a3) simp
qed

lemma ex_refine_51: "ex_refine (21 - 1 / 2 ^ 48) = Fin 21"
proof -
  have "is_double (of_int (31 * 2 ^ 48 - 1) / 2 ^ 48)"
    by (intro is_double_dyadic) simp_all
  then have a1: "round_double (21 - 1 / 2 ^ 48 + 10) = Fin (31 - 1 / 2 ^ 48)"
    using round_double_exact[of "of_int (31 * 2 ^ 48 - 1) / 2 ^ 48"] by simp
  have "round_double (31 - 1 / 2 ^ 48 + 11) =
          Fin (of_int (round_half_even ((31 - 1 / 2 ^ 48 + 11) * 2 ^ 47)) / 2 ^ 47)"
    by (rule round_double_32_64) simp_all
  moreover have "round_half_even ((31 - 1 / 2 ^ 48 + 11) * 2 ^ 47) = 42 * 2 ^ 47"
    by (simp add: round_half_even_def)
  ultimately have a2: "round_double (31 - 1 / 2 ^ 48 + 11) = Fin 42"
    by simp
  have a3: "round_double (42 / 2) = Fin 21"
    by simp
  have a4: "double_of_nat 2 = Fin 2"
    by (simp add: double_of_nat_def)
  show ?thesis
    by (simp only: ex_refine_def dadd.simps a1 a2 a4 ddiv.simps a3) simp
qed

lemma ex_refine_21: "ex_refine 21 = Fin 21"
  by (simp add: ex_refine_def double_of_nat_def)

lemma kmeans_iterations_fixed:
  "kmeans_iterations n ex_data [[Fin 10], [Fin 21]] = Inr [[Fin 10], [Fin 21]]"
proof (induction n)
  case 0
  then show ?case by simp
next
  case (Suc n)
  have "kmeans_iterations (Suc n) ex_data [[Fin 10], [Fin 21]] =
          kmeans_iterations n ex_data [[Fin 10], [Fin 21]]"
    by (rule kmeans_iterations_Suc) (simp_all add: ex_refine_21)
  with Suc.IH show ?case by simp
qed

lemma kmeans_iterations_ex:
  "kmeans_iterations max_iterations ex_data [[Fin 10], [Fin 11]] = Inr [[Fin 10], [Fin 21]]"
proof -
  have 1: "kmeans_iterations 49 ex_data [[Fin 10], [Fin 11]] = Inr [[Fin 10], [Fin (21 - 10 / 2 ^ 49)]]"
    using kmeans_iterations_exact[of 0 49] by simp
  have 2: "kmeans_iterations (Suc (Suc (Suc 448))) ex_data [[Fin 10], [Fin (21 - 10 / 2 ^ 49)]] =
             kmeans_iterations 448 ex_data [[Fin 10], [Fin 21]]"
  proof -
    have b: "(11::real) \<le> 21 - 10 / 2 ^ 49" "(21::real) - 10 / 2 ^ 49 \<le> 21"
      "(11::real) \<le> 21 - 1 / 2 ^ 47" "(21::real) - 1 / 2 ^ 47 \<le> 21"
      "(11::real) \<le> 21 - 1 / 2 ^ 48" "(21::real) - 1 / 2 ^ 48 \<le> 21"
      by simp_all
    have "kmeans_iterations (Suc (Suc (Suc 448))) ex_data [[Fin 10], [Fin (21 - 10 / 2 ^ 49)]] =
            kmeans_iterations (Suc (Suc 448)) ex_data [[Fin 10], [Fin (21 - 1 / 2 ^ 47)]]"
      using b(1,2) ex_refine_49 by (rule kmeans_iterations_Suc)
    also have "\<dots> = kmeans_iterations (Suc 448) ex_data [[Fin 10], [Fin (21 - 1 / 2 ^ 48)]]"
      using b(3,4) ex_refine_50 by (rule kmeans_iterations_Suc)
    also have "\<dots> = kmeans_iterations 448 ex_data [[Fin 10], [Fin 21]]"
      using b(5,6) ex_refine_51 by (rule kmeans_iterations_Suc)
    finally show ?thesis .
  qed
  have m: "max_iterations = 49 + Suc (Suc (Suc 448))"
    by (simp add: max_iterations_def)
  show ?thesis
    unfolding m kmeans_iterations_add 1 ebind.simps 2 by (rule kmeans_iterations_fixed)
qed

lemma IVFFlatIndex_new_ex:
  "IVFFlatIndex_new metric [(''lists'', 2), (''probe_lists'', int probe)] =
     Inr (ivf_new metric (size_t_of_int (int probe)))"
  by (simp add: IVFFlatIndex_new_def ivf_new_def size_t_of_int_def)

lemma BuildIndex_ex:
  "IVFFlatIndex_BuildIndex (ivf_new metric probe) ex_data ex_shuffle = Inr (ivf_built metric probe)"
proof -
  have s: "IVFFlatIndex_RandomSample ex_data 2 ex_shuffle = Inr [[Fin 10], [Fin 11]]"
    by (simp add: IVFFlatIndex_RandomSample_def ex_data_def ex_shuffle_def nth_checked_def upt_rec)
  note k = kmeans_iterations_ex
  have 1: "FindCentroid [Fin 10] [[Fin 10], [Fin 21]] L2Dist = Inr 1"
    by (intro FindCentroid_p10) simp_all
  have 2: "FindCentroid [Fin 11] [[Fin 10], [Fin 21]] L2Dist = Inr 1"
    by (intro FindCentroid_p11) simp_all
  have a: "assign_buckets ex_data [[Fin 10], [Fin 21]] (resize 2 []) =
             Inr [[], [([Fin 10], 0), ([Fin 11], 1)]]"
    by (simp add: ex_data_def 1 2 resize_def numeral_2_eq_2)
  have l: "length ex_data = 2"
    by (simp add: ex_data_def)
  show ?thesis
    by (simp add: IVFFlatIndex_BuildIndex_def ivf_new_def ivf_built_def l s k a del: One_nat_def)
qed

subsection \<open>IVFFlat: assignment, metric, refinement step, frame\<close>

lemmas scan_simps = IVFFlatIndex_ScanVectorKey_def local_results_def IVFFlatIndex_FindNearestCentroids_def
  std_sort_def pair_less_def first_less_def nth_checked_def

text \<open>
  C4, at a failing input. The index of two lists is built on the points \<open>[10]\<close> and
  \<open>[11]\<close>; its centroids are \<open>[10]\<close> and \<open>[21]\<close>, and the build has put both points,
  \<open>[10]\<close> too, into the bucket of the second. \<^verbatim>\<open>InsertVectorEntry\<close> of the key \<open>[0]\<close>
  appends it to the bucket of the second centroid as well, which is at distance \<open>21\<close> of
  the key, while the first centroid is at distance \<open>10\<close>: \<^verbatim>\<open>FindCentroid\<close> keeps a
  centroid whose distance is greater than the distance kept so far.
\<close>

theorem InsertVectorEntry_farthest_centroid:
  "IVFFlatIndex_BuildIndex (ivf_new L2Dist 1) ex_data ex_shuffle = Inr (ivf_built L2Dist 1) \<and>
   IVFFlatIndex_InsertVectorEntry (ivf_built L2Dist 1) [Fin 0] 2 =
     Inr ((ivf_built L2Dist 1)
            \<lparr> centroids_buckets_m := [[], [([Fin 10], 0), ([Fin 11], 1), ([Fin 0], 2)]] \<rparr>) \<and>
   ComputeDistance [Fin 0] [Fin 10] L2Dist = Inr (Fin 10) \<and>
   ComputeDistance [Fin 0] [Fin 21] L2Dist = Inr (Fin 21) \<and>
   dless (Fin 10) (Fin 21)"
proof -
  have d: "ComputeDistance [Fin 0] [Fin 10] L2Dist = Inr (Fin 10)"
    "ComputeDistance [Fin 0] [Fin 21] L2Dist = Inr (Fin 21)"
    using l2_1d[of 0 10] l2_1d[of 0 21] by simp_all
  have "double_to_int (Fin 10) = Inr 10" "double_to_int (Fin 21) = Inr 21"
    using double_to_int_small[of 10] double_to_int_small[of 21] by simp_all
  then have "FindCentroid [Fin 0] [[Fin 10], [Fin 21]] L2Dist = Inr 1"
    by (simp add: FindCentroid_def d double_of_int_def size_t_of_int_def)
  then have "IVFFlatIndex_InsertVectorEntry (ivf_built L2Dist 1) [Fin 0] 2 =
     Inr ((ivf_built L2Dist 1)
            \<lparr> centroids_buckets_m := [[], [([Fin 10], 0), ([Fin 11], 1), ([Fin 0], 2)]] \<rparr>)"
    by (simp add: IVFFlatIndex_InsertVectorEntry_def ivf_built_def)
  moreover have "dless (Fin 10) (Fin 21)"
    by simp
  ultimately show ?thesis
    using BuildIndex_ex[of L2Dist 1] d by blast
qed

text \<open>
  C3, at a failing input. The index is created with the metric \<^verbatim>\<open>InnerProduct\<close>, built on
  the points \<open>[10]\<close> (RID 0) and \<open>[11]\<close> (RID 1), and probes both lists. The scan for
  the one nearest neighbour of \<open>[1]\<close> returns RID 0, the nearest under L2; under the inner
  product the distances are \<open>-10\<close> and \<open>-11\<close>, and RID 1 is the nearest. Build, insert
  and scan all pass the constant \<^verbatim>\<open>VectorExpressionType::L2Dist\<close>.
\<close>

theorem IVFFlat_scan_ignores_metric:
  "IVFFlatIndex_BuildIndex (ivf_new InnerProduct 2) ex_data ex_shuffle = Inr (ivf_built InnerProduct 2) \<and>
   IVFFlatIndex_ScanVectorKey (ivf_built InnerProduct 2) [Fin 1] 1 = Inr ([0], ivf_built InnerProduct 2) \<and>
   ComputeDistance [Fin 1] [Fin 10] InnerProduct = Inr (Fin (- 10)) \<and>
   ComputeDistance [Fin 1] [Fin 11] InnerProduct = Inr (Fin (- 11))"
proof -
  have "IVFFlatIndex_ScanVectorKey (ivf_built InnerProduct 2) [Fin 1] 1 = Inr ([0], ivf_built InnerProduct 2)"
    by (simp add: scan_simps ivf_built_def l2_1d)
  moreover have "ComputeDistance [Fin 1] [Fin 10] InnerProduct = Inr (Fin (- 10))"
    by (simp add: dist_simps)
  moreover have "ComputeDistance [Fin 1] [Fin 11] InnerProduct = Inr (Fin (- 11))"
    by (simp add: dist_simps)
  ultimately show ?thesis
    using BuildIndex_ex[of InnerProduct 2] by blast
qed

text \<open>
  C5, at a failing input: the first two refinement iterations of a build on the points
  \<open>[1]\<close> and \<open>[-1]\<close> with two lists, the sampled centroids being \<open>[1]\<close> and \<open>[-1]\<close>.
  In the first, each point is added to the centroid that is not its nearest, on top of the
  old value of that centroid, and centroid 0 is not divided: the result is \<open>[0]\<close> and
  \<open>[0]\<close>, where the means of the nearest points are \<open>[1]\<close> and \<open>[-1]\<close>. In the second,
  both points go to centroid 0; centroid 1 has no point, is divided by the count \<open>0\<close> and
  becomes \<open>0 / 0\<close>, not a number, where it should have kept its value.
\<close>

theorem FindCentroids_not_means:
  "FindCentroids [([Fin 1], 0), ([Fin (- 1)], 1)] [[Fin 1], [Fin (- 1)]] L2Dist = Inr [[Fin 0], [Fin 0]] \<and>
   FindCentroids [([Fin 1], 0), ([Fin (- 1)], 1)] [[Fin 0], [Fin 0]] L2Dist = Inr [[Fin 0], [NaN]]"
  by (simp add: FindCentroids_def FindCentroids_divide_def VectorAdd_def VectorScalarDiv_def
      FindCentroid_def l2_1d double_simps upt_rec)

text \<open>
  C10: a scan of the IVFFlat index that returns leaves the index (metric, \<^verbatim>\<open>lists_\<close>,
  \<^verbatim>\<open>probe_lists_\<close>, \<^verbatim>\<open>centroids_\<close>, \<^verbatim>\<open>centroids_buckets_\<close>) as it was.
\<close>

theorem IVFFlatIndex_ScanVectorKey_read_only:
  "IVFFlatIndex_ScanVectorKey s base_vector limit = Inr (rids, s') \<Longrightarrow> s' = s"
  by (auto simp: IVFFlatIndex_ScanVectorKey_def local_results_def IVFFlatIndex_FindNearestCentroids_def
      ebind_eq_Inr)

theorem IVFFlatIndex_ScanVectorKey_read_only_witness:
  "IVFFlatIndex_ScanVectorKey (ivf_built L2Dist 1) [Fin 20] 1 = Inr ([1], ivf_built L2Dist 1) \<and>
   ivf_built L2Dist 1 = ivf_built L2Dist 1"
proof -
  have e: "IVFFlatIndex_ScanVectorKey (ivf_built L2Dist 1) [Fin 20] 1 = Inr ([1], ivf_built L2Dist 1)"
    by (simp add: scan_simps ivf_built_def l2_1d)
  from IVFFlatIndex_ScanVectorKey_read_only[OF e] e show ?thesis by simp
qed

subsection \<open>HNSW: a run, the index without points, the widths of the scan\<close>

lemmas hnsw_simps = NSW_SearchLayer_def init_search_state_def SearchLayer_loop.simps
  SearchLayer_iteration_def SearchLayer_break_def update_max_result_dist_def
  SelectNeighbors_def push_bounded_def pq_push_def pq_pop_def pq_top_def
  CompareByDistance_def SelectNeighbors_cmp_def edges_at_def edges_update_def
  NSW_DefaultEntryPoint_def nth_checked_def last_layer_def dmin_def DBL_MIN_def DBL_MAX_def
  NSW_AddVertex_def NSW_Connect_def connect_all_def new_layers_def HNSWIndex_AddVertex_def
  size_t_mult_def

lemma hnsw_run:
  "HNSWIndex_new L2Dist hnsw_options = Inr hnsw0"
  "HNSWIndex_InsertVectorEntry hnsw0 [Fin 10] 100 0 = Inr hnsw1"
  "HNSWIndex_InsertVectorEntry hnsw1 [Fin 5] 101 0 = Inr hnsw2"
  "HNSWIndex_InsertVectorEntry hnsw2 [Fin 0] 102 0 = Inr hnsw3"
  by (simp_all add: HNSWIndex_new_def hnsw_options_def size_t_of_int_def
      HNSWIndex_InsertVectorEntry_def hnsw0_def hnsw1_def hnsw2_def hnsw3_def hnsw_simps l2_1d)

lemma hnsw_star_run:
  "HNSWIndex_InsertVectorEntry hnsw0 [Fin 0] 100 0 = Inr (star_index [[Fin 0]] [100] [])"
  "HNSWIndex_InsertVectorEntry (star_index [[Fin 0]] [100] []) [Fin 10] 101 0 =
     Inr (star_index [[Fin 0], [Fin 10]] [100, 101] [(0, [1]), (1, [0])])"
  "HNSWIndex_InsertVectorEntry
     (star_index [[Fin 0], [Fin 10]] [100, 101] [(0, [1]), (1, [0])]) [Fin (- 11)] 102 0 =
     Inr (star_index [[Fin 0], [Fin 10], [Fin (- 11)]] [100, 101, 102]
            [(0, [1, 2]), (2, [0]), (1, [0])])"
  "HNSWIndex_InsertVectorEntry
     (star_index [[Fin 0], [Fin 10], [Fin (- 11)]] [100, 101, 102]
        [(0, [1, 2]), (2, [0]), (1, [0])]) [Fin 20] 103 0 =
     Inr (star_index [[Fin 0], [Fin 10], [Fin (- 11)], [Fin 20]] [100, 101, 102, 103]
            [(0, [1, 2, 3]), (3, [0]), (2, [0]), (1, [0])])"
  "HNSWIndex_InsertVectorEntry
     (star_index [[Fin 0], [Fin 10], [Fin (- 11)], [Fin 20]] [100, 101, 102, 103]
        [(0, [1, 2, 3]), (3, [0]), (2, [0]), (1, [0])]) [Fin (- 21)] 104 0 =
     Inr (star_index [[Fin 0], [Fin 10], [Fin (- 11)], [Fin 20], [Fin (- 21)]]
            [100, 101, 102, 103, 104]
            [(0, [1, 2, 3, 4]), (4, [0]), (3, [0]), (2, [0]), (1, [0])])"
  "HNSWIndex_InsertVectorEntry
     (star_index [[Fin 0], [Fin 10], [Fin (- 11)], [Fin 20], [Fin (- 21)]]
        [100, 101, 102, 103, 104]
        [(0, [1, 2, 3, 4]), (4, [0]), (3, [0]), (2, [0]), (1, [0])]) [Fin 1] 105 0 =
     Inr hnsw_star"
  by (simp_all add: HNSWIndex_InsertVectorEntry_def hnsw0_def star_index_def hnsw_star_def
      hnsw_simps l2_1d upt_rec)

lemma ebind_Inr_right: "ebind m Inr = m"
  by (cases m) simp_all

lemma ebind_assoc: "ebind (ebind m f) g = ebind m (\<lambda>x. ebind (f x) g)"
  by (cases m) simp_all

lemma scan_descend_search_down:
  "i < length layers \<Longrightarrow>
   ebind (scan_descend vertices layers q ef i entry_points) (\<lambda>eps.
     ebind (nth_checked layers 0) (\<lambda>layer0. NSW_SearchLayer vertices layer0 q ef eps))
   = search_down vertices q ef (rev (take (Suc i) layers)) entry_points"
proof (induction i arbitrary: entry_points)
  case 0
  then have "take (Suc 0) layers = [layers ! 0]"
    by (cases layers) simp_all
  moreover have "search_down vertices q ef [] = Inr"
    by (rule ext) simp
  ultimately show ?case
    using 0 by (simp add: nth_checked_def ebind_Inr_right)
next
  case (Suc i)
  then have i: "i < length layers" by simp
  have t: "rev (take (Suc (Suc i)) layers) = layers ! Suc i # rev (take (Suc i) layers)"
    using Suc.prems by (simp add: take_Suc_conv_app_nth)
  have n: "nth_checked layers (Suc i) = Inr (layers ! Suc i)"
    using Suc.prems by (simp add: nth_checked_def)
  have "ebind (scan_descend vertices layers q ef (Suc i) entry_points) (\<lambda>eps.
          ebind (nth_checked layers 0) (\<lambda>layer0. NSW_SearchLayer vertices layer0 q ef eps))
        = ebind (NSW_SearchLayer vertices (layers ! Suc i) q ef entry_points) (\<lambda>found.
            ebind (scan_descend vertices layers q ef i found) (\<lambda>eps.
              ebind (nth_checked layers 0) (\<lambda>layer0. NSW_SearchLayer vertices layer0 q ef eps)))"
    by (simp only: scan_descend.simps n ebind.simps ebind_assoc)
  also have "\<dots> = ebind (NSW_SearchLayer vertices (layers ! Suc i) q ef entry_points)
                     (search_down vertices q ef (rev (take (Suc i) layers)))"
    by (simp only: Suc.IH[OF i])
  also have "\<dots> = search_down vertices q ef (rev (take (Suc (Suc i)) layers)) entry_points"
    by (simp only: t search_down.simps)
  finally show ?case .
qed

lemma HNSWIndex_ScanVectorKey_search_down:
  "HNSWIndex_ScanVectorKey h base_vector limit =
     ebind (last_layer (layers_m h)) (\<lambda>top_layer.
     ebind (NSW_DefaultEntryPoint top_layer) (\<lambda>entry_point.
     ebind (search_down (vertices_m h) base_vector limit (rev (layers_m h)) [entry_point])
       (rids_of (rids_m h))))"
proof (cases "layers_m h = []")
  case True
  then show ?thesis
    by (simp add: HNSWIndex_ScanVectorKey_def last_layer_def)
next
  case False
  then have "length (layers_m h) - 1 < length (layers_m h)" by simp
  from scan_descend_search_down[OF this, of "vertices_m h" base_vector limit]
  have "\<And>eps. ebind (scan_descend (vertices_m h) (layers_m h) base_vector limit
                   (length (layers_m h) - 1) eps) (\<lambda>eps.
               ebind (nth_checked (layers_m h) 0) (\<lambda>layer0.
                 NSW_SearchLayer (vertices_m h) layer0 base_vector limit eps))
             = search_down (vertices_m h) base_vector limit (rev (layers_m h)) eps"
    using False by simp
  then have "\<And>eps. ebind (search_down (vertices_m h) base_vector limit (rev (layers_m h)) eps)
                 (rids_of (rids_m h)) =
        ebind (scan_descend (vertices_m h) (layers_m h) base_vector limit
                   (length (layers_m h) - 1) eps) (\<lambda>eps.
               ebind (nth_checked (layers_m h) 0) (\<lambda>layer0.
               ebind (NSW_SearchLayer (vertices_m h) layer0 base_vector limit eps)
                 (rids_of (rids_m h))))"
    by (simp add: ebind_assoc[symmetric])
  then show ?thesis
    by (simp add: HNSWIndex_ScanVectorKey_def)
qed

text \<open>
  C6, with a failing input. The scan searches every layer, from the top one down to layer
  0, with \<open>ef = limit\<close>, and hands the whole result of a layer to the next as its entry
  points; \<^verbatim>\<open>ef_search_\<close>, which the constructor requires, stores and documents as the size
  of the candidate set of a search, is not read: the result is the same for every value of
  it. On the index \<open>hnsw3\<close> (three inserts into a new index, \<open>hnsw_run\<close>), whose
  \<open>ef_search\<close> is 3, the scan for the nearest neighbour of \<open>[0]\<close> with \<open>limit = 1\<close>
  searches layer 0 with \<open>ef = 1\<close> and returns RID 101, the point \<open>[5]\<close>. The layer search
  of the code with \<open>ef = max(ef_search, limit) = 3\<close> finds the vertices 2, 1, 0 in this
  order, and the scan with that width at layer 0 returns RID 102, the point \<open>[0]\<close> itself.
\<close>

theorem HNSWIndex_ScanVectorKey_every_layer_limit:
  "HNSWIndex_ScanVectorKey h base_vector limit =
     ebind (last_layer (layers_m h)) (\<lambda>top_layer.
     ebind (NSW_DefaultEntryPoint top_layer) (\<lambda>entry_point.
     ebind (search_down (vertices_m h) base_vector limit (rev (layers_m h)) [entry_point])
       (rids_of (rids_m h)))) \<and>
   HNSWIndex_ScanVectorKey (h\<lparr> ef_search_m := ef \<rparr>) base_vector limit =
     HNSWIndex_ScanVectorKey h base_vector limit \<and>
   HNSWIndex_ScanVectorKey hnsw3 [Fin 0] 1 = Inr [101] \<and>
   NSW_SearchLayer (vertices_m hnsw3) (layers_m hnsw3 ! 0) [Fin 0] (max (ef_search_m hnsw3) 1) [0] =
     Inr [2, 1, 0] \<and>
   spec_ScanVectorKey hnsw3 [Fin 0] 1 = Inr [102]"
proof -
  have "HNSWIndex_ScanVectorKey (h\<lparr> ef_search_m := ef \<rparr>) base_vector limit =
          HNSWIndex_ScanVectorKey h base_vector limit"
    by (simp add: HNSWIndex_ScanVectorKey_def)
  moreover have "HNSWIndex_ScanVectorKey hnsw3 [Fin 0] 1 = Inr [101]"
    by (simp add: HNSWIndex_ScanVectorKey_def hnsw0_def hnsw3_def hnsw_simps l2_1d)
  moreover have s: "NSW_SearchLayer (vertices_m hnsw3) (layers_m hnsw3 ! 0) [Fin 0]
                   (max (ef_search_m hnsw3) 1) [0] = Inr [2, 1, 0]"
    by (simp add: hnsw0_def hnsw3_def hnsw_simps l2_1d)
  moreover have "spec_ScanVectorKey hnsw3 [Fin 0] 1 = Inr [102]"
    by (simp add: spec_ScanVectorKey_def hnsw0_def hnsw3_def hnsw_simps l2_1d)
  ultimately show ?thesis
    using HNSWIndex_ScanVectorKey_search_down[of h base_vector limit] by blast
qed

text \<open>
  C8, at a failing input: an HNSW index as its constructor leaves it, without points. Its
  one layer has no vertex, and the scan starts by reading the entry point of that layer:
  \<^verbatim>\<open>ScanVectorKey\<close> has no test for the empty index, which \<^verbatim>\<open>InsertVectorEntry\<close> has.
  Whatever vertex id stands for the entry point, the layer search then reads the empty
  vertex table at it. The IVFFlat scan of an index
  without centroids does return the empty list (\<open>IVFFlatIndex_ScanVectorKey_no_centroids\<close>).
\<close>

theorem HNSWIndex_ScanVectorKey_empty_index:
  assumes "HNSWIndex_new distance_fn options = Inr h"
  shows "HNSWIndex_ScanVectorKey h base_vector limit = Inl OutOfRange \<and>
         (\<exists>layer0. layers_m h = [layer0] \<and>
            NSW_SearchLayer (vertices_m h) layer0 base_vector limit [entry_point] = Inl OutOfRange)"
proof -
  from assms obtain m ef_construction ef_search where
    h: "h = \<lparr> distance_fn_m = distance_fn, vertices_m = [], rids_m = [],
                layers_m = [\<lparr> dist_fn_m = distance_fn,
                              nsw_m_max_m = size_t_mult (size_t_of_int m) (size_t_of_int m),
                              edges_m = [], in_vertices_m = [] \<rparr>],
                m_m = size_t_of_int m,
                ef_construction_m = size_t_of_int ef_construction,
                ef_search_m = size_t_of_int ef_search,
                m_max_m = size_t_of_int m,
                m_max_0_m = size_t_mult (size_t_of_int m) (size_t_of_int m) \<rparr>"
    by (auto simp: HNSWIndex_new_def split: option.splits)
  have "HNSWIndex_ScanVectorKey h base_vector limit = Inl OutOfRange"
    by (simp add: h HNSWIndex_ScanVectorKey_def last_layer_def NSW_DefaultEntryPoint_def
        nth_checked_def)
  moreover have "NSW_SearchLayer (vertices_m h) (hd (layers_m h)) base_vector limit [entry_point]
                   = Inl OutOfRange"
    by (simp add: h NSW_SearchLayer_def nth_checked_def)
  ultimately show ?thesis
    by (simp add: h)
qed

theorem HNSWIndex_ScanVectorKey_empty_index_witness:
  "HNSWIndex_new L2Dist hnsw_options = Inr hnsw0 \<and>
   HNSWIndex_ScanVectorKey hnsw0 [Fin 0] 1 = Inl OutOfRange \<and>
   NSW_SearchLayer (vertices_m hnsw0) (hd (layers_m hnsw0)) [Fin 0] 1 [0] = Inl OutOfRange"
  using HNSWIndex_ScanVectorKey_empty_index[OF hnsw_run(1), of "[Fin 0]" 1 0] hnsw_run(1)
  by auto

lemma NSW_SearchLayer_no_vertices:
  "NSW_SearchLayer [] g base_vector limit (entry_point # rest) = Inl OutOfRange"
  by (simp add: NSW_SearchLayer_def nth_checked_def)

lemma IVFFlatIndex_ScanVectorKey_no_centroids:
  "centroids_m s = [] \<Longrightarrow> IVFFlatIndex_ScanVectorKey s base_vector limit = Inr ([], s)"
  by (simp add: scan_simps)

lemma IVFFlatIndex_BuildIndex_too_little_data:
  "length initial_data < lists_m s \<Longrightarrow> IVFFlatIndex_BuildIndex s initial_data indices = Inr s"
  by (simp add: IVFFlatIndex_BuildIndex_def)


subsection \<open>The optimizer rule\<close>

lemmas opt_simps = rewrite_TopN_def base_vector_children_def GetChildAt_def nth_checked_def
  seq_scan_table_def projection_dist_fn_def MatchVectorIndex_def upt_rec deref_def

text \<open>
  C9, at two failing inputs. For the plan of \<^verbatim>\<open>SELECT v FROM t ORDER BY v LIMIT 3\<close>, a TopN
  node whose order-by expression is a column, the rule reads \<^verbatim>\<open>children_[0]\<close> of an
  expression without children. For the plan that orders by \<^verbatim>\<open>l2_dist(v, ARRAY[1, 2, 3])\<close>,
  the shape the rule is meant to rewrite, it reads \<^verbatim>\<open>GetChildAt(0)\<close> of the column \<open>v\<close>.
  Both reads are outside the vector: the rule does not run to completion.
\<close>

theorem OptimizeAsVectorIndexScan_fails:
  "OptimizeAsVectorIndexScan ex_optimizer plan_order_by_column = Inl OutOfRange \<and>
   OptimizeAsVectorIndexScan ex_optimizer plan_column_first = Inl OutOfRange"
  by (simp add: plan_order_by_column_def plan_column_first_def projection_over_scan_def
      column_v_def array_123_def opt_simps)

text \<open>
  What the rule does when it returns. With the array as the first argument and three
  elements, the TopN node is rewritten, into a projection with two children, the null
  pointer and the index scan; the same TopN node below a node that does not match is left
  as it is, since the optimized children are dropped; and a node that is not a TopN node is
  returned unchanged.
\<close>

lemma OptimizeAsVectorIndexScan_array_first:
  "OptimizeAsVectorIndexScan ex_optimizer plan_array_first =
     Inr (Plan (ProjectionPlanNode [column_v]) [''v'']
            [None, Some (Plan (VectorIndexScanPlanNode 0 ''t'' 7 ''idx'' array_123 3) [''v''] [])])"
  by (simp add: plan_array_first_def projection_over_scan_def ex_optimizer_def
      column_v_def array_123_def opt_simps)

lemma OptimizeAsVectorIndexScan_children_dropped:
  "OptimizeAsVectorIndexScan ex_optimizer (Plan (OtherPlanNode FilterPlan) [''v''] [Some plan_array_first]) =
     Inr (Plan (OtherPlanNode FilterPlan) [''v''] [Some plan_array_first])"
  using OptimizeAsVectorIndexScan_array_first by simp

lemma OptimizeAsVectorIndexScan_not_TopN:
  assumes "OptimizeAsVectorIndexScan opt plan = Inr plan'" and "GetType plan \<noteq> TopN"
  shows "plan' = plan"
proof (cases plan)
  case (Plan node schema children)
  with assms show ?thesis
    by (cases node) (auto simp: ebind_eq_Inr split: if_splits)
qed

text \<open>
  Applied to the plan it has produced, the rule calls itself on the null child of the new
  projection.
\<close>

lemma OptimizeAsVectorIndexScan_again:
  "OptimizeAsVectorIndexScan ex_optimizer
     (Plan (ProjectionPlanNode [column_v]) [''v'']
        [None, Some (Plan (VectorIndexScanPlanNode 0 ''t'' 7 ''idx'' array_123 3) [''v''] [])]) =
     Inl NullDeref"
  by simp

subsection \<open>The layer search: invariants of the code, and the breadth-first search\<close>













lemmas spec_simps = spec_SearchLayer_def spec_loop.simps vertex_distance_def nearer_on_top_def
  exceeds_maximum_def

text \<open>
  C1, at a failing input: layer 0 of \<open>hnsw3\<close> (three inserts into a new index,
  \<open>hnsw_run\<close>), the path \<open>0 \<midarrow> 1 \<midarrow> 2\<close> of the points \<open>[10]\<close>, \<open>[5]\<close>, \<open>[0]\<close>, with
  the query \<open>[0]\<close>, \<open>ef = 1\<close> and the entry point 0. The search of the claim visits every
  neighbour of the popped vertex that is not visited yet: it reaches vertex 2, at distance
  0, and returns it. The code returns vertex 1, at distance 5. At vertex 1 it does not
  visit the neighbours 0 and 2 but what \<^verbatim>\<open>SelectNeighbors\<close> keeps of them for \<open>m = 1\<close>,
  and \<^verbatim>\<open>SelectNeighbors\<close>, documented to return the nearest \<open>m\<close>, pops its heap at the
  nearest element and keeps vertex 0, the farther of the two, which is visited already.

  Nor does the code pop the nearest candidate or stop early: the candidates are a
  first-in-first-out queue, and the test of early termination, which compares the least
  distance seen so far with the top of the result heap, holds in no state that the search
  reaches (\<open>no_break\<close>), so that the loop runs until the queue is empty
  (\<open>NSW_SearchLayer_eq_fifo\<close>).
\<close>

theorem NSW_SearchLayer_not_best_first:
  "NSW_SearchLayer (vertices_m hnsw3) (layers_m hnsw3 ! 0) [Fin 0] 1 [0] = Inr [1] \<and>
   spec_SearchLayer (vertices_m hnsw3) (layers_m hnsw3 ! 0) [Fin 0] 1 [0] = Inr [2] \<and>
   edges_at (layers_m hnsw3 ! 0) 1 = [0, 2] \<and>
   SelectNeighbors [Fin 0] [0, 2] (vertices_m hnsw3) 1 L2Dist = Inr [0] \<and>
   vertex_distance (vertices_m hnsw3) (layers_m hnsw3 ! 0) [Fin 0] 0 = Inr (Fin 10) \<and>
   vertex_distance (vertices_m hnsw3) (layers_m hnsw3 ! 0) [Fin 0] 1 = Inr (Fin 5) \<and>
   vertex_distance (vertices_m hnsw3) (layers_m hnsw3 ! 0) [Fin 0] 2 = Inr (Fin 0)"
  by (simp add: hnsw0_def hnsw3_def hnsw_simps spec_simps l2_1d)


subsection \<open>The scans: number and order of the results\<close>































lemma edges_update_dist_fn [simp]: "dist_fn_m (edges_update g v ns) = dist_fn_m g"
  by (simp add: edges_update_def)

lemma NSW_Connect_dist_fn [simp]: "dist_fn_m (NSW_Connect g a b) = dist_fn_m g"
  by (simp add: NSW_Connect_def Let_def)

lemma NSW_AddVertex_dist_fn [simp]: "dist_fn_m (NSW_AddVertex g v) = dist_fn_m g"
  by (simp add: NSW_AddVertex_def)

lemma connect_all_dist_fn [simp]: "dist_fn_m (connect_all g v ns) = dist_fn_m g"
proof -
  have "dist_fn_m (foldl (\<lambda>g1 neighbor. NSW_Connect g1 v neighbor) g ns) = dist_fn_m g"
    by (induction ns arbitrary: g) simp_all
  then show ?thesis by (simp add: connect_all_def)
qed

lemma shrink_neighbors_dist_fn:
  "shrink_neighbors h ns g = Inr g' \<Longrightarrow> dist_fn_m g' = dist_fn_m g"
proof (induction ns arbitrary: g)
  case Nil
  then show ?case by simp
next
  case (Cons n ns)
  show ?case
  proof (cases "m_max_m h < length (edges_at g n)")
    case True
    with Cons.prems obtain new_neighbors where
      "shrink_neighbors h ns (edges_update g n new_neighbors) = Inr g'"
      by (auto simp: ebind_eq_Inr)
    from Cons.IH[OF this] show ?thesis by simp
  next
    case False
    with Cons.prems have "shrink_neighbors h ns g = Inr g'" by simp
    from Cons.IH[OF this] show ?thesis .
  qed
qed

lemma insert_lower_layers_metric:
  "insert_lower h key vertex_id n eps = Inr h' \<Longrightarrow> layers_metric h \<Longrightarrow>
     layers_metric h' \<and> distance_fn_m h' = distance_fn_m h"
proof (induction n arbitrary: h eps)
  case 0
  then show ?case by simp
next
  case (Suc level)
  from Suc.prems(1) obtain layer nearest_elements neighbors layer1 where
    l: "nth_checked (layers_m h) level = Inr layer"
    and s: "shrink_neighbors h neighbors
              (connect_all (NSW_AddVertex layer vertex_id) vertex_id neighbors) = Inr layer1"
    and rec: "insert_lower (h\<lparr> layers_m := (layers_m h)[level := layer1] \<rparr>) key vertex_id level
                nearest_elements = Inr h'"
    by (auto simp: ebind_eq_Inr)
  from l have "layer \<in> set (layers_m h)"
    by (auto simp: nth_checked_def split: if_splits)
  with Suc.prems(2) have "dist_fn_m layer = distance_fn_m h" by (simp add: layers_metric_def)
  with shrink_neighbors_dist_fn[OF s] have "dist_fn_m layer1 = distance_fn_m h" by simp
  then have "layers_metric (h\<lparr> layers_m := (layers_m h)[level := layer1] \<rparr>)"
    using Suc.prems(2) set_update_subset_insert[of "layers_m h" level layer1]
    by (auto simp: layers_metric_def)
  from Suc.IH[OF rec this] show ?case by simp
qed

lemma InsertVectorEntry_layers_metric:
  assumes "HNSWIndex_InsertVectorEntry h key rid target_level = Inr h'" and "layers_metric h"
  shows "layers_metric h' \<and> distance_fn_m h' = distance_fn_m h"
proof -
  let ?h1 = "h\<lparr> vertices_m := vertices_m h @ [key], rids_m := rids_m h @ [rid] \<rparr>"
  have m1: "layers_metric ?h1" using assms(2) by (simp add: layers_metric_def)
  from assms(1) obtain layer0 h2 where
    l0: "nth_checked (layers_m ?h1) 0 = Inr layer0"
    and h2: "(if in_vertices_m layer0 \<noteq> []
           then
             ebind (last_layer (layers_m ?h1)) (\<lambda>top_layer.
             ebind (NSW_DefaultEntryPoint top_layer) (\<lambda>entry_point.
             ebind (insert_upper ?h1 key (length (layers_m ?h1) - 1) target_level [entry_point])
               (\<lambda>(level, entry_points).
                  insert_lower ?h1 key (length (vertices_m h)) (Suc level) entry_points)))
           else Inr (?h1\<lparr> layers_m := (layers_m ?h1)[0 := NSW_AddVertex layer0 (length (vertices_m h))] \<rparr>))
          = Inr h2"
    and h': "h' = new_layers h2 (length (vertices_m h)) target_level"
    by (auto simp: HNSWIndex_InsertVectorEntry_def HNSWIndex_AddVertex_def ebind_eq_Inr)
  have "layers_metric h2 \<and> distance_fn_m h2 = distance_fn_m h"
  proof (cases "in_vertices_m layer0 \<noteq> []")
    case True
    with h2 obtain level entry_points where
      "insert_lower ?h1 key (length (vertices_m h)) (Suc level) entry_points = Inr h2"
      by (auto simp: ebind_eq_Inr simp del: insert_lower.simps)
    from insert_lower_layers_metric[OF this m1] show ?thesis by simp
  next
    case False
    from l0 have "layer0 \<in> set (layers_m h)"
      by (auto simp: nth_checked_def split: if_splits)
    with assms(2) have "dist_fn_m (NSW_AddVertex layer0 (length (vertices_m h))) = distance_fn_m h"
      by (simp add: layers_metric_def)
    with False h2 assms(2)
      set_update_subset_insert[of "layers_m h" 0 "NSW_AddVertex layer0 (length (vertices_m h))"]
    show ?thesis by (auto simp: layers_metric_def)
  qed
  then show ?thesis
    unfolding h' by (auto simp: layers_metric_def new_layers_def)
qed

lemma HNSWIndex_new_layers_metric:
  "HNSWIndex_new distance_fn options = Inr h \<Longrightarrow> layers_metric h \<and> distance_fn_m h = distance_fn"
  by (auto simp: HNSWIndex_new_def layers_metric_def split: option.splits)





end
